theory Spec2Isabelle
  imports Complex_Main "HOL-Library.Word"
begin

section \<open>Python values of the MNIST example\<close>

text \<open>
  The example script \<^verbatim>\<open>examples/mnist/mnist.py\<close> owns two pieces of logic: the
  caching dataset \<^verbatim>\<open>CachedMNIST\<close> and the orchestrator \<^verbatim>\<open>main\<close>. Both are
  embedded here. Exceptions are values of the type \<open>error\<close>, and a method that mutates
  its object returns the updated object next to its result.
\<close>

datatype error = IndexError | KeyError | AttributeError | RuntimeError

datatype device = CPU | CUDA

type_synonym byte = "8 word"

text \<open>
  Elements of a float tensor. The script builds them with two operations only: the
  conversion of a byte (\<^verbatim>\<open>.float()\<close>) and the product with a literal (\<^verbatim>\<open>* 0.02\<close>).
  They are kept as expressions, so that no rounding behaviour of the tensor library is
  assumed; \<open>exact_value\<close> is the rational number an expression denotes when no rounding
  takes place.
\<close>

datatype f32 = F32_of_byte byte | F32_lit rat | F32_mul f32 f32

fun exact_value :: "f32 \<Rightarrow> rat" where
  "exact_value (F32_of_byte b) = of_nat (unat b)"
| "exact_value (F32_lit q) = q"
| "exact_value (F32_mul x y) = exact_value x * exact_value y"

datatype pyval = FloatTensor device "f32 list" | LongTensor device int | PyInt int

text \<open>A greyscale image is its rows of pixels; \<^verbatim>\<open>img.tobytes()\<close> lays them out row by row.\<close>

type_synonym image = "byte list list"

definition tobytes :: "image \<Rightarrow> byte list" where
  "tobytes img = concat img"

text \<open>\<^verbatim>\<open>.float()\<close> on a byte tensor, and the product of a float tensor with a literal.\<close>

definition to_float :: "byte list \<Rightarrow> f32 list" where
  "to_float bs = map F32_of_byte bs"

definition mul_scalar :: "f32 list \<Rightarrow> rat \<Rightarrow> f32 list" where
  "mul_scalar xs c = map (\<lambda>x. F32_mul x (F32_lit c)) xs"

text \<open>
  \<^verbatim>\<open>CachedMNIST._transformation\<close>:
  \<^verbatim>\<open>torch.ByteTensor(torch.ByteStorage.from_buffer(img.tobytes())).float() * 0.02\<close>
\<close>

definition transformation :: "image \<Rightarrow> pyval" where
  "transformation img = FloatTensor CPU (mul_scalar (to_float (tobytes img)) (2 / 100))"

text \<open>
  \<^verbatim>\<open>t.cuda(non_blocking=True)\<close>. A plain integer has no such method. On a tensor the
  transfer is a call into the device library, which may raise (no driver, no memory
  left): \<open>ok\<close> tells whether this transfer succeeds.
\<close>

fun tensor_cuda :: "bool \<Rightarrow> pyval \<Rightarrow> error + pyval" where
  "tensor_cuda ok (PyInt n) = Inl AttributeError"
| "tensor_cuda ok (FloatTensor d xs) =
     (if ok then Inr (FloatTensor CUDA xs) else Inl RuntimeError)"
| "tensor_cuda ok (LongTensor d n) =
     (if ok then Inr (LongTensor CUDA n) else Inl RuntimeError)"

text \<open>\<^verbatim>\<open>torch.tensor(x)\<close>: an integer becomes a tensor on the CPU, a tensor is copied.\<close>

fun torch_tensor :: "pyval \<Rightarrow> pyval" where
  "torch_tensor (PyInt n) = LongTensor CPU n"
| "torch_tensor (LongTensor d n) = LongTensor d n"
| "torch_tensor (FloatTensor d xs) = FloatTensor d xs"

section \<open>The underlying dataset\<close>

text \<open>
  The dataset object of the image library, as the script uses it: the decoded samples,
  the transform handed to the constructor, and indexing. Indexing follows the tensor
  that holds the samples: an index that does not fit a signed 64-bit integer raises
  \<^verbatim>\<open>RuntimeError\<close>, a negative index counts from the end, an index out of range raises
  \<^verbatim>\<open>IndexError\<close>, and the transform runs on the image of every sample read.
  The label of a sample is returned as a Python integer.
  \<open>transform_calls\<close> instruments the transform: it counts its invocations.
\<close>

record MNIST =
  data :: "(image \<times> int) list"
  transform :: "image \<Rightarrow> pyval"
  transform_calls :: nat

definition MNIST_len :: "MNIST \<Rightarrow> int" where
  "MNIST_len d = int (length (data d))"

definition MNIST_getitem :: "MNIST \<Rightarrow> int \<Rightarrow> (error + pyval \<times> int) \<times> MNIST" where
  "MNIST_getitem d index =
     (if index < - (2 ^ 63) \<or> 2 ^ 63 \<le> index then (Inl RuntimeError, d)
      else
        let n = MNIST_len d; j = (if index < 0 then n + index else index)
        in if 0 \<le> j \<and> j < n
           then (case data d ! nat j of
                   (img, target) \<Rightarrow>
                     (Inr (transform d img, target),
                      d\<lparr>transform_calls := transform_calls d + 1\<rparr>))
           else (Inl IndexError, d))"

section \<open>CachedMNIST\<close>

text \<open>
  The fields of the class, and two components that are not fields of the class.
  \<open>heap\<close> holds the list objects the cache has created, each at the address it was
  allocated at: the cache maps an index to the address of its list, so that two reads
  returning the same address return the same object. \<open>transfers\<close> counts the device
  transfers attempted so far.
\<close>

record CachedMNIST =
  ds :: MNIST
  cuda :: bool
  testing_mode :: bool
  cache :: "int \<rightharpoonup> nat"
  heap :: "pyval list list"
  transfers :: nat

text \<open>
  \<^verbatim>\<open>CachedMNIST.__init__(train, cuda, testing_mode)\<close>. The samples that the download
  provides for the training and the evaluation split are the parameter \<open>files\<close>.
\<close>

definition init :: "(bool \<Rightarrow> (image \<times> int) list) \<Rightarrow> bool \<Rightarrow> bool \<Rightarrow> bool \<Rightarrow> CachedMNIST" where
  "init files train cuda_flag testing =
     \<lparr>ds = \<lparr>data = files train, transform = transformation, transform_calls = 0\<rparr>,
      cuda = cuda_flag, testing_mode = testing, cache = Map.empty, heap = [],
      transfers = 0\<rparr>"

text \<open>\<^verbatim>\<open>self._cache[index]\<close>\<close>

definition cache_lookup :: "CachedMNIST \<Rightarrow> int \<Rightarrow> error + nat" where
  "cache_lookup self index =
     (case cache self index of None \<Rightarrow> Inl KeyError | Some r \<Rightarrow> Inr r)"

text \<open>\<^verbatim>\<open>xs[k]\<close> and \<^verbatim>\<open>xs[k] = v\<close> on the list at address \<open>r\<close>\<close>

definition list_getitem :: "pyval list list \<Rightarrow> nat \<Rightarrow> nat \<Rightarrow> error + pyval" where
  "list_getitem h r k =
     (if r < length h \<and> k < length (h ! r) then Inr (h ! r ! k) else Inl IndexError)"

definition list_setitem :: "pyval list list \<Rightarrow> nat \<Rightarrow> nat \<Rightarrow> pyval \<Rightarrow> error + pyval list list" where
  "list_setitem h r k v =
     (if r < length h \<and> k < length (h ! r) then Inr (h[r := (h ! r)[k := v]])
      else Inl IndexError)"

definition and_then :: "error + 'a \<Rightarrow> ('a \<Rightarrow> error + 'b) \<Rightarrow> error + 'b" where
  "and_then m f = (case m of Inl e \<Rightarrow> Inl e | Inr x \<Rightarrow> f x)"

text \<open>
  The accelerator is part of the environment: \<open>acc k\<close> tells whether the transfer
  number \<open>k\<close> of the process succeeds. Any pattern of failures is such a function.

  Line 43: \<^verbatim>\<open>self._cache[index][0] = self._cache[index][0].cuda(non_blocking=True)\<close>.
  The right-hand side is evaluated first, then the target list is looked up again.
\<close>

definition feature_to_cuda ::
    "(nat \<Rightarrow> bool) \<Rightarrow> CachedMNIST \<Rightarrow> int \<Rightarrow> (error + unit) \<times> CachedMNIST" where
  "feature_to_cuda acc self index =
     (case and_then (cache_lookup self index) (\<lambda>r. list_getitem (heap self) r 0) of
        Inl e \<Rightarrow> (Inl e, self)
      | Inr v \<Rightarrow>
          (case and_then (tensor_cuda (acc (transfers self)) v) (\<lambda>v'.
                and_then (cache_lookup self index) (\<lambda>r'.
                list_setitem (heap self) r' 0 v')) of
             Inl e \<Rightarrow> (Inl e, self\<lparr>transfers := transfers self + 1\<rparr>)
           | Inr h \<Rightarrow> (Inr (), self\<lparr>heap := h, transfers := transfers self + 1\<rparr>)))"

text \<open>
  Line 44:
  \<^verbatim>\<open>self._cache[index][1] = torch.tensor(self._cache[index][1]).cuda(non_blocking=True)\<close>
\<close>

definition label_to_cuda ::
    "(nat \<Rightarrow> bool) \<Rightarrow> CachedMNIST \<Rightarrow> int \<Rightarrow> (error + unit) \<times> CachedMNIST" where
  "label_to_cuda acc self index =
     (case and_then (cache_lookup self index) (\<lambda>r. list_getitem (heap self) r 1) of
        Inl e \<Rightarrow> (Inl e, self)
      | Inr v \<Rightarrow>
          (case and_then (tensor_cuda (acc (transfers self)) (torch_tensor v)) (\<lambda>v'.
                and_then (cache_lookup self index) (\<lambda>r'.
                list_setitem (heap self) r' 1 v')) of
             Inl e \<Rightarrow> (Inl e, self\<lparr>transfers := transfers self + 1\<rparr>)
           | Inr h \<Rightarrow> (Inr (), self\<lparr>heap := h, transfers := transfers self + 1\<rparr>)))"

text \<open>
  Lines 41 to 44, the body of \<^verbatim>\<open>if index not in self._cache\<close>:
  \<^verbatim>\<open>self._cache[index] = list(self.ds[index])\<close> allocates a new list and stores its
  address; with \<^verbatim>\<open>self.cuda\<close> its two elements are then replaced in place. The entry
  is stored before the transfers: when one of them raises, the entry stays.
\<close>

definition fill ::
    "(nat \<Rightarrow> bool) \<Rightarrow> CachedMNIST \<Rightarrow> int \<Rightarrow> (error + unit) \<times> CachedMNIST" where
  "fill acc self index =
     (case MNIST_getitem (ds self) index of
        (Inl e, d) \<Rightarrow> (Inl e, self\<lparr>ds := d\<rparr>)
      | (Inr (img, target), d) \<Rightarrow>
          (let self1 = self\<lparr>ds := d,
                            cache := (cache self)(index \<mapsto> length (heap self)),
                            heap := heap self @ [[img, PyInt target]]\<rparr>
           in if cuda self1
              then (case feature_to_cuda acc self1 index of
                      (Inl e, self2) \<Rightarrow> (Inl e, self2)
                    | (Inr u, self2) \<Rightarrow> label_to_cuda acc self2 index)
              else (Inr (), self1)))"

text \<open>\<^verbatim>\<open>CachedMNIST.__getitem__(index)\<close>: the address of the returned list, or the exception.\<close>

definition getitem ::
    "(nat \<Rightarrow> bool) \<Rightarrow> CachedMNIST \<Rightarrow> int \<Rightarrow> (error + nat) \<times> CachedMNIST" where
  "getitem acc self index =
     (if index \<notin> dom (cache self)
      then (case fill acc self index of
              (Inl e, self') \<Rightarrow> (Inl e, self')
            | (Inr u, self') \<Rightarrow> (cache_lookup self' index, self'))
      else (cache_lookup self index, self))"

text \<open>\<^verbatim>\<open>CachedMNIST.__len__()\<close>\<close>

definition len :: "CachedMNIST \<Rightarrow> int" where
  "len self = (if testing_mode self then 128 else MNIST_len (ds self))"

text \<open>
  The dataset after a sequence of reads, whatever each of them returned (an exception
  leaves the object as the failing call left it).
\<close>

fun getitems :: "(nat \<Rightarrow> bool) \<Rightarrow> CachedMNIST \<Rightarrow> int list \<Rightarrow> CachedMNIST" where
  "getitems acc self [] = self"
| "getitems acc self (i # is) = getitems acc (snd (getitem acc self i)) is"

text \<open>The object a read returns: the list stored at the returned address.\<close>

definition returned :: "(error + nat) \<times> CachedMNIST \<Rightarrow> pyval list option" where
  "returned res =
     (case fst res of Inl e \<Rightarrow> None
      | Inr r \<Rightarrow> if r < length (heap (snd res)) then Some (heap (snd res) ! r) else None)"

text \<open>
  The indices that the underlying dataset serves, the sample such an index denotes,
  and the lists that the cache can hold for a sample: the transformed image on the
  CPU or on the accelerator, and the label as an integer or as a tensor on the
  accelerator. \<open>stored\<close> is the list of a completed fill: on the CPU the image and the
  integer label, with \<^verbatim>\<open>cuda\<close> both as tensors on the accelerator.
\<close>

definition valid_index :: "MNIST \<Rightarrow> int \<Rightarrow> bool" where
  "valid_index d index \<longleftrightarrow>
     - (2 ^ 63) \<le> index \<and> index < 2 ^ 63 \<and> - MNIST_len d \<le> index \<and> index < MNIST_len d"

definition sample_at :: "MNIST \<Rightarrow> int \<Rightarrow> image \<times> int" where
  "sample_at d index = data d ! nat (if index < 0 then MNIST_len d + index else index)"

definition placed :: "bool \<Rightarrow> bool \<Rightarrow> image \<times> int \<Rightarrow> pyval list" where
  "placed feature_moved label_moved s =
     [FloatTensor (if feature_moved then CUDA else CPU)
        (mul_scalar (to_float (tobytes (fst s))) (2 / 100)),
      if label_moved then LongTensor CUDA (snd s) else PyInt (snd s)]"

definition stored :: "bool \<Rightarrow> image \<times> int \<Rightarrow> pyval list" where
  "stored on_cuda s =
     (if on_cuda
      then [FloatTensor CUDA (mul_scalar (to_float (tobytes (fst s))) (2 / 100)),
            LongTensor CUDA (snd s)]
      else [FloatTensor CPU (mul_scalar (to_float (tobytes (fst s))) (2 / 100)),
            PyInt (snd s)])"

fun device_of :: "pyval \<Rightarrow> device option" where
  "device_of (FloatTensor d xs) = Some d"
| "device_of (LongTensor d n) = Some d"
| "device_of (PyInt n) = None"

fun elements :: "pyval \<Rightarrow> f32 list" where
  "elements (FloatTensor d xs) = xs"
| "elements (LongTensor d n) = []"
| "elements (PyInt n) = []"

text \<open>
  What the methods of the class maintain: the transform is the one of the class,
  every cache entry is the address of the list of a sample of the underlying dataset,
  moved as far as its fill went, and the transform has run once for each entry.
  \<open>cache_complete\<close> holds as long as no fill has been cut short: every list is the
  one of a completed fill.
\<close>

definition cache_ok :: "CachedMNIST \<Rightarrow> bool" where
  "cache_ok self \<longleftrightarrow>
     transform (ds self) = transformation \<and>
     (\<forall>i r. cache self i = Some r \<longrightarrow>
        r < length (heap self) \<and> valid_index (ds self) i \<and>
        (heap self ! r = placed False False (sample_at (ds self) i) \<or>
         cuda self \<and> heap self ! r = placed True False (sample_at (ds self) i) \<or>
         cuda self \<and> heap self ! r = placed True True (sample_at (ds self) i))) \<and>
     finite (dom (cache self)) \<and>
     transform_calls (ds self) = card (dom (cache self))"

definition cache_complete :: "CachedMNIST \<Rightarrow> bool" where
  "cache_complete self \<longleftrightarrow>
     (\<forall>i r. cache self i = Some r \<longrightarrow>
        heap self ! r = stored (cuda self) (sample_at (ds self) i))"

section \<open>The orchestrator\<close>

text \<open>
  \<^verbatim>\<open>main\<close> is a straight line of calls into libraries: the dataset and autoencoder
  constructors, the two training routines, the data loader, k-means and the reporting
  calls. Each call is an event, with the arguments the script passes. A call either
  returns or raises; which calls raise is given by the environment, as are the
  downloaded samples, the rows of features that the encoder returns for a batch of
  samples, and the identifier that \<^verbatim>\<open>uuid.uuid4().hex\<close> returns. A batch is the list
  of the indices of its samples.
\<close>

type_synonym feature = "rat list"

record train_args =
  arg_cuda :: bool
  arg_epochs :: int
  arg_batch_size :: int
  arg_lr :: rat
  arg_momentum :: rat
  arg_step_size :: int
  arg_gamma :: rat
  arg_corruption :: rat

datatype event =
    SummaryWriter_new
  | CachedMNIST_new bool bool bool
  | Autoencoder_new "nat list"
  | Autoencoder_cuda
  | Print string
  | Pretrain train_args
  | SGD_new rat rat
  | StepLR_new int rat
  | Train train_args
  | DataLoader_new int bool
  | KMeans_new nat nat
  | Autoencoder_eval
  | DataLoader_next "int list"
  | Batch_cuda "int list"
  | Encoder "int list"
  | Cat_actual "int list list"
  | Cat_features "feature list list"
  | KMeans_fit_predict "feature list"
  | Cluster_accuracy
  | Print_accuracy
  | Reassign
  | Confusion_matrix
  | Normalise
  | Uuid4
  | Heatmap
  | Savefig string
  | Label_images
  | Add_embedding string
  | Writer_close

record env =
  files :: "bool \<Rightarrow> (image \<times> int) list"
  raises :: "event \<Rightarrow> bool"
  encoder :: "int list \<Rightarrow> feature list"
  uuid4_hex :: string

datatype outcome = Returned | Raised event

text \<open>
  A call raises when the environment says so; \<^verbatim>\<open>torch.cat\<close> of an empty list of
  tensors always raises.
\<close>

fun call_raises :: "env \<Rightarrow> event \<Rightarrow> bool" where
  "call_raises e (Cat_actual bs) = (bs = [] \<or> raises e (Cat_actual bs))"
| "call_raises e (Cat_features fs) = (fs = [] \<or> raises e (Cat_features fs))"
| "call_raises e ev = raises e ev"

text \<open>
  The script has no \<^verbatim>\<open>try\<close>: the calls run in order, and the first one that raises ends
  the run with its exception. The result is the calls made and how the run ended.
\<close>

fun exec :: "env \<Rightarrow> event list \<Rightarrow> event list \<times> outcome" where
  "exec e [] = ([], Returned)"
| "exec e (ev # evs) =
     (if call_raises e ev then ([ev], Raised ev)
      else (case exec e evs of (tr, out) \<Rightarrow> (ev # tr, out)))"

text \<open>
  \<^verbatim>\<open>DataLoader(ds_train, batch_size=1024, shuffle=False)\<close>: without shuffling the loader
  reads the indices \<open>0, 1, ...\<close> below the length of the dataset in that order, in
  batches of the batch size, the last batch being the remainder.
\<close>

function chunks :: "nat \<Rightarrow> 'a list \<Rightarrow> 'a list list" where
  "chunks k xs = (if k = 0 \<or> xs = [] then [] else take k xs # chunks k (drop k xs))"
  by pat_completeness auto
termination
  by (relation "measure (\<lambda>(k, xs). length xs)") auto

declare chunks.simps [simp del]

definition batches :: "int \<Rightarrow> int \<Rightarrow> int list list" where
  "batches batch_size n = chunks (nat batch_size) (map int [0..<nat n])"

text \<open>Lines 89 to 105: the writer, the two datasets, the autoencoder.\<close>

definition setup_calls :: "bool \<Rightarrow> bool \<Rightarrow> event list" where
  "setup_calls cuda_flag testing =
     [SummaryWriter_new,
      CachedMNIST_new True cuda_flag testing,
      CachedMNIST_new False cuda_flag testing,
      Autoencoder_new [28 * 28, 500, 500, 2000, 10]]
     @ (if cuda_flag then [Autoencoder_cuda] else [])"

text \<open>Lines 106 to 117: \<^verbatim>\<open>ae.pretrain\<close>.\<close>

definition pretrain_stage :: "bool \<Rightarrow> int \<Rightarrow> int \<Rightarrow> event list" where
  "pretrain_stage cuda_flag batch_size pretrain_epochs =
     [Print ''Pretraining stage.'',
      Pretrain \<lparr>arg_cuda = cuda_flag, arg_epochs = pretrain_epochs,
                arg_batch_size = batch_size, arg_lr = 1 / 10, arg_momentum = 9 / 10,
                arg_step_size = 100, arg_gamma = 1 / 10, arg_corruption = 2 / 10\<rparr>]"

text \<open>Lines 118 to 131: the optimizer, its schedule, \<^verbatim>\<open>ae.train\<close>.\<close>

definition finetune_stage :: "bool \<Rightarrow> int \<Rightarrow> int \<Rightarrow> event list" where
  "finetune_stage cuda_flag batch_size finetune_epochs =
     [Print ''Training stage.'',
      SGD_new (1 / 10) (9 / 10),
      StepLR_new 100 (1 / 10),
      Train \<lparr>arg_cuda = cuda_flag, arg_epochs = finetune_epochs,
             arg_batch_size = batch_size, arg_lr = 1 / 10, arg_momentum = 9 / 10,
             arg_step_size = 100, arg_gamma = 1 / 10, arg_corruption = 2 / 10\<rparr>]"

text \<open>
  Lines 142 to 148, the body of the loop over the loader, for one batch. A batch of
  \<^verbatim>\<open>CachedMNIST\<close> samples is a list of two tensors, so the labels are always split off.
\<close>

definition encode_batch :: "bool \<Rightarrow> int list \<Rightarrow> event list" where
  "encode_batch cuda_flag b =
     [DataLoader_next b] @ (if cuda_flag then [Batch_cuda b] else []) @ [Encoder b]"

text \<open>
  Lines 140 to 148, the loop: for each batch of the loader in turn, its labels are
  appended to \<^verbatim>\<open>actual\<close> and what the encoder returns for it to \<^verbatim>\<open>features\<close>. The
  state of the loop is the calls made so far and the two lists.
\<close>

fun encode_loop ::
    "env \<Rightarrow> bool \<Rightarrow> int list list \<Rightarrow> event list \<times> feature list list \<times> int list list \<Rightarrow>
     event list \<times> feature list list \<times> int list list" where
  "encode_loop e cuda_flag [] st = st"
| "encode_loop e cuda_flag (b # bs) (calls, features, actual) =
     encode_loop e cuda_flag bs
       (calls @ encode_batch cuda_flag b, features @ [encoder e b], actual @ [b])"

text \<open>
  Lines 154 to 166: the confusion matrix, its heatmap and the embedding, unless in
  testing mode.
\<close>

definition report_calls :: "bool \<Rightarrow> string \<Rightarrow> feature list list \<Rightarrow> event list" where
  "report_calls testing hex features =
     (if \<not> testing
      then [Confusion_matrix, Normalise, Uuid4, Heatmap,
            Savefig (''confusion_'' @ hex @ ''.png''),
            Print (''Writing out confusion diagram with UUID: '' @ hex),
            Cat_features features, Label_images, Add_embedding ''predicted'', Writer_close]
      else [])"

text \<open>
  Lines 132 to 166. The loader is built over \<^verbatim>\<open>ds_train\<close>, whose length is that of
  \<^verbatim>\<open>CachedMNIST.__len__\<close>. After the loop, \<^verbatim>\<open>torch.cat(features)\<close> puts the rows of
  all batches below each other, and k-means is fitted on that matrix.
\<close>

definition kmeans_stage :: "env \<Rightarrow> bool \<Rightarrow> bool \<Rightarrow> event list" where
  "kmeans_stage e cuda_flag testing =
     (let ds_train = init (files e) True cuda_flag testing;
          dataloader = batches 1024 (len ds_train)
      in case encode_loop e cuda_flag dataloader ([], [], []) of
           (calls, features, actual) \<Rightarrow>
             [Print ''k-Means stage'', DataLoader_new 1024 False, KMeans_new 10 20,
              Autoencoder_eval]
             @ calls
             @ [Cat_actual actual, Cat_features features, KMeans_fit_predict (concat features),
                Cluster_accuracy, Print_accuracy, Reassign]
             @ report_calls testing (uuid4_hex e) features)"

definition script :: "env \<Rightarrow> bool \<Rightarrow> int \<Rightarrow> int \<Rightarrow> int \<Rightarrow> bool \<Rightarrow> event list" where
  "script e cuda_flag batch_size pretrain_epochs finetune_epochs testing =
     setup_calls cuda_flag testing
     @ pretrain_stage cuda_flag batch_size pretrain_epochs
     @ finetune_stage cuda_flag batch_size finetune_epochs
     @ kmeans_stage e cuda_flag testing"

text \<open>\<^verbatim>\<open>main(cuda, batch_size, pretrain_epochs, finetune_epochs, testing_mode)\<close>\<close>

definition main :: "env \<Rightarrow> bool \<Rightarrow> int \<Rightarrow> int \<Rightarrow> int \<Rightarrow> bool \<Rightarrow> event list \<times> outcome" where
  "main e cuda_flag batch_size pretrain_epochs finetune_epochs testing =
     exec e (script e cuda_flag batch_size pretrain_epochs finetune_epochs testing)"

text \<open>What a run shows of its calls.\<close>

datatype stage = Pretraining | Finetuning | Clustering

fun stage_of :: "event \<Rightarrow> stage list" where
  "stage_of (Pretrain a) = [Pretraining]"
| "stage_of (Train a) = [Finetuning]"
| "stage_of (KMeans_fit_predict rows) = [Clustering]"
| "stage_of ev = []"

definition stages :: "event list \<Rightarrow> stage list" where
  "stages tr = concat (map stage_of tr)"

fun savefig_of :: "event \<Rightarrow> string list" where
  "savefig_of (Savefig name) = [name]"
| "savefig_of ev = []"

definition savefigs :: "event list \<Rightarrow> string list" where
  "savefigs tr = concat (map savefig_of tr)"

fun embedding_of :: "event \<Rightarrow> string list" where
  "embedding_of (Add_embedding tag) = [tag]"
| "embedding_of ev = []"

definition embeddings :: "event list \<Rightarrow> string list" where
  "embeddings tr = concat (map embedding_of tr)"

fun loader_of :: "event \<Rightarrow> (int \<times> bool) list" where
  "loader_of (DataLoader_new batch_size shuffle) = [(batch_size, shuffle)]"
| "loader_of ev = []"

definition loaders :: "event list \<Rightarrow> (int \<times> bool) list" where
  "loaders tr = concat (map loader_of tr)"

fun kmeans_of :: "event \<Rightarrow> (nat \<times> nat) list" where
  "kmeans_of (KMeans_new n_clusters n_init) = [(n_clusters, n_init)]"
| "kmeans_of ev = []"

definition kmeans_made :: "event list \<Rightarrow> (nat \<times> nat) list" where
  "kmeans_made tr = concat (map kmeans_of tr)"

fun encoded_of :: "event \<Rightarrow> int list list" where
  "encoded_of (Encoder b) = [b]"
| "encoded_of ev = []"

definition encoded :: "event list \<Rightarrow> int list list" where
  "encoded tr = concat (map encoded_of tr)"

fun fitted_of :: "event \<Rightarrow> feature list list" where
  "fitted_of (KMeans_fit_predict rows) = [rows]"
| "fitted_of ev = []"

definition fitted :: "event list \<Rightarrow> feature list list" where
  "fitted tr = concat (map fitted_of tr)"

fun trained_of :: "event \<Rightarrow> int list" where
  "trained_of (Pretrain a) = [arg_batch_size a]"
| "trained_of (Train a) = [arg_batch_size a]"
| "trained_of ev = []"

definition training_batch_sizes :: "event list \<Rightarrow> int list" where
  "training_batch_sizes tr = concat (map trained_of tr)"

fun without_batch_size :: "event \<Rightarrow> event" where
  "without_batch_size (Pretrain a) = Pretrain (a\<lparr>arg_batch_size := 0\<rparr>)"
| "without_batch_size (Train a) = Train (a\<lparr>arg_batch_size := 0\<rparr>)"
| "without_batch_size ev = ev"

text \<open>
  Datasets for concrete runs: two images of two rows and two columns, and two hundred
  images of one row.
\<close>

definition two_samples :: "bool \<Rightarrow> (image \<times> int) list" where
  "two_samples train = [([[1, 2], [3, 4]], 7), ([[5, 6], [250, 8]], 3)]"

definition two_hundred_samples :: "bool \<Rightarrow> (image \<times> int) list" where
  "two_hundred_samples train = replicate 200 ([[0, 255]], 4)"

text \<open>
  Environments for concrete runs: one where no call raises, one where training raises,
  one with 2500 samples where no call raises. Their encoder returns one row for each
  sample of the batch, holding the index of the sample.
\<close>

definition quiet_env :: env where
  "quiet_env =
     \<lparr>files = two_hundred_samples, raises = (\<lambda>ev. False),
      encoder = map (\<lambda>i. [of_int i]), uuid4_hex = ''0123abcd''\<rparr>"

definition train_fails_env :: env where
  "train_fails_env =
     \<lparr>files = two_hundred_samples,
      raises = (\<lambda>ev. case ev of Train a \<Rightarrow> True | _ \<Rightarrow> False),
      encoder = map (\<lambda>i. [of_int i]), uuid4_hex = ''0123abcd''\<rparr>"

definition large_env :: env where
  "large_env =
     \<lparr>files = (\<lambda>train. replicate 2500 ([[0, 255]], 4)), raises = (\<lambda>ev. False),
      encoder = map (\<lambda>i. [of_int i]), uuid4_hex = ''0123abcd''\<rparr>"

section \<open>Reads of the cached dataset\<close>

lemma MNIST_getitem_valid:
  "valid_index d i \<Longrightarrow>
   MNIST_getitem d i =
     (Inr (transform d (fst (sample_at d i)), snd (sample_at d i)),
      d\<lparr>transform_calls := transform_calls d + 1\<rparr>)"
  by (auto simp: MNIST_getitem_def valid_index_def sample_at_def Let_def split: prod.splits)

lemma MNIST_getitem_overflow:
  "\<not> (- (2 ^ 63) \<le> i \<and> i < 2 ^ 63) \<Longrightarrow> MNIST_getitem d i = (Inl RuntimeError, d)"
  by (auto simp: MNIST_getitem_def)

lemma MNIST_getitem_range:
  "- (2 ^ 63) \<le> i \<and> i < 2 ^ 63 \<Longrightarrow> \<not> (- MNIST_len d \<le> i \<and> i < MNIST_len d) \<Longrightarrow>
   MNIST_getitem d i = (Inl IndexError, d)"
  by (auto simp: MNIST_getitem_def Let_def)

lemma getitem_hit: "cache self i = Some r \<Longrightarrow> getitem acc self i = (Inr r, self)"
  by (simp add: getitem_def cache_lookup_def domI)

lemma getitem_overflow:
  "cache self i = None \<Longrightarrow> \<not> (- (2 ^ 63) \<le> i \<and> i < 2 ^ 63) \<Longrightarrow>
   getitem acc self i = (Inl RuntimeError, self)"
  by (simp add: getitem_def fill_def MNIST_getitem_overflow domIff)

lemma getitem_range:
  "cache self i = None \<Longrightarrow> - (2 ^ 63) \<le> i \<and> i < 2 ^ 63 \<Longrightarrow>
   \<not> (- MNIST_len (ds self) \<le> i \<and> i < MNIST_len (ds self)) \<Longrightarrow>
   getitem acc self i = (Inl IndexError, self)"
  by (simp add: getitem_def fill_def MNIST_getitem_range domIff)

lemma getitem_miss:
  assumes "cache self i = None" and "valid_index (ds self) i"
    and "transform (ds self) = transformation"
  shows "getitem acc self i =
     (if cuda self \<longrightarrow> acc (transfers self) \<and> acc (Suc (transfers self))
      then Inr (length (heap self)) else Inl RuntimeError,
      self\<lparr>ds := (ds self)\<lparr>transform_calls := transform_calls (ds self) + 1\<rparr>,
            cache := (cache self)(i \<mapsto> length (heap self)),
            heap := heap self @
              [placed (cuda self \<and> acc (transfers self))
                 (cuda self \<and> acc (transfers self) \<and> acc (Suc (transfers self)))
                 (sample_at (ds self) i)],
            transfers := transfers self +
              (if cuda self then (if acc (transfers self) then 2 else 1) else 0)\<rparr>)"
  using assms
  by (simp add: getitem_def fill_def MNIST_getitem_valid domIff Let_def
      feature_to_cuda_def label_to_cuda_def cache_lookup_def and_then_def
      list_getitem_def list_setitem_def transformation_def placed_def nth_append)

lemma stored_placed: "stored c s = placed c c s"
  by (simp add: stored_def placed_def)

lemma valid_index_calls [simp]:
  "valid_index (d\<lparr>transform_calls := n\<rparr>) i = valid_index d i"
  by (simp add: valid_index_def MNIST_len_def)

lemma sample_at_calls [simp]:
  "sample_at (d\<lparr>transform_calls := n\<rparr>) i = sample_at d i"
  by (simp add: sample_at_def MNIST_len_def)

lemma cache_ok_init: "cache_ok (init fs train c t)"
  by (simp add: cache_ok_def init_def)

lemma cache_complete_init: "cache_complete (init fs train c t)"
  by (simp add: cache_complete_def init_def)

lemma cached_valid: "cache_ok self \<Longrightarrow> cache self i = Some r \<Longrightarrow> valid_index (ds self) i"
  by (simp add: cache_ok_def)

lemma invalid_uncached: "cache_ok self \<Longrightarrow> \<not> valid_index (ds self) i \<Longrightarrow> cache self i = None"
  by (cases "cache self i") (auto dest: cached_valid)

lemma getitem_invalid:
  assumes "cache_ok self" and "\<not> valid_index (ds self) i"
  shows "snd (getitem acc self i) = self \<and>
     fst (getitem acc self i) =
       Inl (if - (2 ^ 63) \<le> i \<and> i < 2 ^ 63 then IndexError else RuntimeError)"
proof -
  have none: "cache self i = None" using assms by (rule invalid_uncached)
  show ?thesis
  proof (cases "- (2 ^ 63) \<le> i \<and> i < 2 ^ 63")
    case True
    then have "\<not> (- MNIST_len (ds self) \<le> i \<and> i < MNIST_len (ds self))"
      using assms(2) by (simp add: valid_index_def)
    from getitem_range [OF none True this] True show ?thesis by simp
  next
    case False
    from getitem_overflow [OF none False] False show ?thesis by simp
  qed
qed

lemma cache_ok_getitem:
  assumes "cache_ok self"
  shows "cache_ok (snd (getitem acc self i))"
proof (cases "cache self i")
  case (Some r)
  then show ?thesis using assms by (simp add: getitem_hit)
next
  case None
  show ?thesis
  proof (cases "valid_index (ds self) i")
    case False
    then show ?thesis using assms by (simp add: getitem_invalid)
  next
    case True
    have tr: "transform (ds self) = transformation"
      using assms by (simp add: cache_ok_def)
    have fin: "finite (dom (cache self))" and cnt: "transform_calls (ds self) = card (dom (cache self))"
      using assms by (simp_all add: cache_ok_def)
    have notin: "i \<notin> dom (cache self)" using None by (simp add: domIff)
    have old: "\<And>j r. cache self j = Some r \<Longrightarrow>
        r < length (heap self) \<and> valid_index (ds self) j \<and>
        (heap self ! r = placed False False (sample_at (ds self) j) \<or>
         cuda self \<and> heap self ! r = placed True False (sample_at (ds self) j) \<or>
         cuda self \<and> heap self ! r = placed True True (sample_at (ds self) j))"
      using assms by (simp add: cache_ok_def)
    show ?thesis
      unfolding getitem_miss [OF None True tr] cache_ok_def
      using tr fin cnt notin True old
      by (cases "cuda self"; cases "acc (transfers self)"; cases "acc (Suc (transfers self))";
          auto simp: nth_append less_Suc_eq)
  qed
qed

lemma cache_ok_getitems: "cache_ok self \<Longrightarrow> cache_ok (getitems acc self is)"
  by (induction "is" arbitrary: self) (simp_all add: cache_ok_getitem)

lemma getitem_keeps:
  assumes "cache_ok self" and "cache self i = Some r"
  shows "cache (snd (getitem acc self j)) i = Some r \<and>
         heap (snd (getitem acc self j)) ! r = heap self ! r"
proof (cases "cache self j")
  case (Some r')
  then show ?thesis using assms by (simp add: getitem_hit)
next
  case None
  show ?thesis
  proof (cases "valid_index (ds self) j")
    case False
    then show ?thesis using assms by (simp add: getitem_invalid)
  next
    case True
    have tr: "transform (ds self) = transformation"
      using assms by (simp add: cache_ok_def)
    have "r < length (heap self)" using assms by (simp add: cache_ok_def)
    moreover have "i \<noteq> j" using assms None by auto
    ultimately show ?thesis
      unfolding getitem_miss [OF None True tr] using assms(2)
      by (simp add: nth_append)
  qed
qed

lemma getitems_keeps:
  "cache_ok self \<Longrightarrow> cache self i = Some r \<Longrightarrow>
   cache (getitems acc self js) i = Some r \<and>
   heap (getitems acc self js) ! r = heap self ! r"
proof (induction js arbitrary: self)
  case Nil
  then show ?case by simp
next
  case (Cons j js)
  have ok: "cache_ok (snd (getitem acc self j))"
    using Cons.prems(1) by (rule cache_ok_getitem)
  have k: "cache (snd (getitem acc self j)) i = Some r \<and>
         heap (snd (getitem acc self j)) ! r = heap self ! r"
    using Cons.prems by (rule getitem_keeps)
  show ?case using Cons.IH [OF ok conjunct1 [OF k]] k by simp
qed

lemma getitem_fields:
  "testing_mode (snd (getitem acc self i)) = testing_mode self \<and>
   cuda (snd (getitem acc self i)) = cuda self \<and>
   data (ds (snd (getitem acc self i))) = data (ds self) \<and>
   transform (ds (snd (getitem acc self i))) = transform (ds self)"
  by (auto simp: getitem_def fill_def feature_to_cuda_def label_to_cuda_def MNIST_getitem_def
      Let_def split: prod.splits sum.splits if_splits)

lemma getitems_fields:
  "testing_mode (getitems acc self is) = testing_mode self \<and>
   cuda (getitems acc self is) = cuda self \<and>
   data (ds (getitems acc self is)) = data (ds self) \<and>
   transform (ds (getitems acc self is)) = transform (ds self)"
  by (induction "is" arbitrary: self) (simp_all add: getitem_fields)

text \<open>As long as every transfer succeeds, or none is made, every fill is completed.\<close>

lemma cache_complete_getitem:
  assumes "cache_ok self" and "cache_complete self" and "\<not> cuda self \<or> (\<forall>k. acc k)"
  shows "cache_complete (snd (getitem acc self i))"
proof (cases "cache self i")
  case (Some r)
  then show ?thesis using assms by (simp add: getitem_hit)
next
  case None
  show ?thesis
  proof (cases "valid_index (ds self) i")
    case False
    then show ?thesis using assms by (simp add: getitem_invalid)
  next
    case True
    have tr: "transform (ds self) = transformation"
      using assms by (simp add: cache_ok_def)
    have old: "\<And>j r. cache self j = Some r \<Longrightarrow>
        r < length (heap self) \<and> heap self ! r = stored (cuda self) (sample_at (ds self) j)"
      using assms(1,2) by (simp add: cache_ok_def cache_complete_def)
    show ?thesis
      unfolding getitem_miss [OF None True tr] cache_complete_def
      using assms(3) old
      by (auto simp: nth_append stored_placed)
  qed
qed

lemma cache_complete_getitems:
  "cache_ok self \<Longrightarrow> cache_complete self \<Longrightarrow> \<not> cuda self \<or> (\<forall>k. acc k) \<Longrightarrow>
   cache_complete (getitems acc self is)"
proof (induction "is" arbitrary: self)
  case Nil
  then show ?case by simp
next
  case (Cons i "is")
  have "cache_ok (snd (getitem acc self i))" using Cons.prems(1) by (rule cache_ok_getitem)
  moreover have "cache_complete (snd (getitem acc self i))"
    using Cons.prems by (rule cache_complete_getitem)
  moreover have "\<not> cuda (snd (getitem acc self i)) \<or> (\<forall>k. acc k)"
    using Cons.prems(3) by (simp add: getitem_fields)
  ultimately show ?case using Cons.IH by simp
qed

section \<open>Datasets reached from the constructor\<close>

lemma reachable_ok: "cache_ok (getitems acc (init fs train c t) before)"
  by (simp add: cache_ok_getitems cache_ok_init)

lemma reachable_fields:
  "data (ds (getitems acc (init fs train c t) before)) = fs train \<and>
   cuda (getitems acc (init fs train c t) before) = c \<and>
   testing_mode (getitems acc (init fs train c t) before) = t"
  by (simp add: getitems_fields init_def)

lemma reachable_valid:
  "valid_index (ds (getitems acc (init fs train c t) before)) i \<longleftrightarrow>
     - (2 ^ 63) \<le> i \<and> i < 2 ^ 63 \<and>
     - int (length (fs train)) \<le> i \<and> i < int (length (fs train))"
  by (simp add: valid_index_def MNIST_len_def reachable_fields)

lemma reachable_sample:
  "sample_at (ds (getitems acc (init fs train c t) before)) i =
     fs train ! nat (if i < 0 then int (length (fs train)) + i else i)"
  by (simp add: sample_at_def MNIST_len_def reachable_fields)

lemma reachable_complete:
  "\<not> c \<or> (\<forall>k. acc k) \<Longrightarrow> cache_complete (getitems acc (init fs train c t) before)"
proof -
  assume "\<not> c \<or> (\<forall>k. acc k)"
  then have "\<not> cuda (init fs train c t) \<or> (\<forall>k. acc k)" by (simp add: init_def)
  with cache_ok_init cache_complete_init show ?thesis by (rule cache_complete_getitems)
qed

lemma getitem_cached:
  assumes "cache_ok self" and "cache self i = Some r"
  shows "getitem acc self i = (Inr r, self) \<and> r < length (heap self) \<and>
     (heap self ! r = placed False False (sample_at (ds self) i) \<or>
      cuda self \<and> heap self ! r = placed True False (sample_at (ds self) i) \<or>
      cuda self \<and> heap self ! r = placed True True (sample_at (ds self) i))"
  using assms by (simp add: getitem_hit cache_ok_def)

lemma getitem_created:
  assumes "cache_ok self" and "cache self i = None" and "valid_index (ds self) i"
    and "s1 = snd (getitem acc self i)"
  shows "cache s1 i = Some (length (heap self)) \<and> length (heap self) < length (heap s1) \<and>
     transform_calls (ds s1) = transform_calls (ds self) + 1 \<and>
     ((cuda self \<longrightarrow> acc (transfers self) \<and> acc (Suc (transfers self))) \<longrightarrow>
        fst (getitem acc self i) = Inr (length (heap self)) \<and>
        heap s1 ! length (heap self) = stored (cuda self) (sample_at (ds self) i)) \<and>
     (\<not> (cuda self \<longrightarrow> acc (transfers self) \<and> acc (Suc (transfers self))) \<longrightarrow>
        fst (getitem acc self i) = Inl RuntimeError \<and>
        (heap s1 ! length (heap self) = placed False False (sample_at (ds self) i) \<or>
         heap s1 ! length (heap self) = placed True False (sample_at (ds self) i)))"
proof -
  have tr: "transform (ds self) = transformation"
    using assms(1) by (simp add: cache_ok_def)
  show ?thesis
    unfolding assms(4) getitem_miss [OF assms(2,3) tr]
    by (cases "cuda self"; cases "acc (transfers self)"; cases "acc (Suc (transfers self))";
        simp add: stored_placed)
qed


lemma init_uncached: "cache (init fs train c t) i = None"
  by (simp add: init_def)

lemma init_transform: "transform (ds (init fs train c t)) = transformation"
  by (simp add: init_def)

lemma two_samples_valid: "valid_index (ds (init two_samples train c t)) 1"
  by (simp add: valid_index_def MNIST_len_def init_def two_samples_def)

lemma two_samples_first_read:
  "getitem acc (init two_samples True False False) 1 =
     (Inr 0, \<lparr>ds = \<lparr>data = two_samples True, transform = transformation, transform_calls = 1\<rparr>,
       cuda = False, testing_mode = False, cache = [1 \<mapsto> 0],
       heap = [placed False False (two_samples True ! 1)], transfers = 0\<rparr>)"
  unfolding getitem_miss [OF init_uncached two_samples_valid init_transform]
  by (simp add: init_def MNIST_len_def two_samples_def sample_at_def)

lemma two_samples_first_read_cuda:
  "getitem (\<lambda>k. True) (init two_samples True True False) 1 =
     (Inr 0, \<lparr>ds = \<lparr>data = two_samples True, transform = transformation, transform_calls = 1\<rparr>,
       cuda = True, testing_mode = False, cache = [1 \<mapsto> 0],
       heap = [placed True True (two_samples True ! 1)], transfers = 2\<rparr>)"
  unfolding getitem_miss [OF init_uncached two_samples_valid init_transform]
  by (simp add: init_def MNIST_len_def two_samples_def sample_at_def)

lemma two_samples_failed_read:
  "getitem (\<lambda>k. 0 < k) (init two_samples True True False) 1 =
     (Inl RuntimeError,
      \<lparr>ds = \<lparr>data = two_samples True, transform = transformation, transform_calls = 1\<rparr>,
       cuda = True, testing_mode = False, cache = [1 \<mapsto> 0],
       heap = [placed False False (two_samples True ! 1)], transfers = 1\<rparr>)"
  unfolding getitem_miss [OF init_uncached two_samples_valid init_transform]
  by (simp add: init_def MNIST_len_def two_samples_def sample_at_def)

lemma two_hundred_valid:
  "0 \<le> i \<Longrightarrow> i < 200 \<Longrightarrow> valid_index (ds (init two_hundred_samples train c t)) i"
  by (simp add: valid_index_def MNIST_len_def init_def two_hundred_samples_def)

lemma devices_stored:
  "map device_of (stored c x) = (if c then [Some CUDA, Some CUDA] else [Some CPU, None])"
  by (simp add: stored_def)

lemma devices_placed:
  "map device_of (placed f l x) =
     [Some (if f then CUDA else CPU), if l then Some CUDA else None]"
  by (simp add: placed_def)

lemma concat_grid_length:
  "\<forall>row\<in>set img. length row = w \<Longrightarrow> length (concat img) = length img * w"
  by (induction img) simp_all

lemma concat_grid_nth:
  "\<forall>row\<in>set img. length row = w \<Longrightarrow> r < length img \<Longrightarrow> c < w \<Longrightarrow>
   concat img ! (r * w + c) = img ! r ! c"
proof (induction img arbitrary: r)
  case Nil
  then show ?case by simp
next
  case (Cons row rest)
  show ?case
  proof (cases r)
    case 0
    then show ?thesis using Cons.prems by (simp add: nth_append)
  next
    case (Suc r')
    have "concat (row # rest) ! (r * w + c) = concat rest ! (r' * w + c)"
      using Suc Cons.prems(1) by (simp add: nth_append)
    also have "\<dots> = rest ! r' ! c"
      using Cons.IH [of r'] Cons.prems Suc by simp
    finally show ?thesis using Suc by simp
  qed
qed

lemma grid_index_bound:
  fixes r c w n :: nat
  assumes "r < n" and "c < w"
  shows "r * w + c < n * w"
proof -
  have "r * w + c < r * w + w" using assms(2) by simp
  also have "\<dots> = Suc r * w" by simp
  also have "\<dots> \<le> n * w" using assms(1) by (intro mult_le_mono1) simp
  finally show ?thesis .
qed

section \<open>Runs of the orchestrator\<close>

subsection \<open>Calls until the first exception\<close>

lemma exec_trace_prefix: "\<exists>rest. evs = fst (exec e evs) @ rest"
  by (induction evs) (auto split: prod.splits)

lemma exec_returned_iff:
  "snd (exec e evs) = Returned \<longleftrightarrow> (\<forall>ev\<in>set evs. \<not> call_raises e ev)"
  by (induction evs) (auto split: prod.splits)

lemma exec_returned_trace: "snd (exec e evs) = Returned \<Longrightarrow> fst (exec e evs) = evs"
  by (induction evs) (auto split: prod.splits if_splits)

lemma exec_raise_ends:
  "fst (exec e evs) = pre @ ev # post \<Longrightarrow> call_raises e ev \<Longrightarrow>
   post = [] \<and> snd (exec e evs) = Raised ev"
proof (induction evs arbitrary: pre)
  case Nil
  then show ?case by simp
next
  case (Cons x evs)
  show ?case
  proof (cases "call_raises e x")
    case True
    then have "[x] = pre @ ev # post" using Cons.prems(1) by simp
    then have "pre = [] \<and> ev = x \<and> post = []" by (cases pre) auto
    then show ?thesis using True by simp
  next
    case False
    then have tr: "x # fst (exec e evs) = pre @ ev # post"
      using Cons.prems(1) by (simp split: prod.splits)
    have "pre \<noteq> []" using tr False Cons.prems(2) by (cases pre) auto
    then obtain pre' where pre: "pre = x # pre'" using tr by (cases pre) auto
    then have "fst (exec e evs) = pre' @ ev # post" using tr by simp
    from Cons.IH [OF this Cons.prems(2)] show ?thesis
      using False by (cases "exec e evs") simp
  qed
qed

subsection \<open>Batches\<close>

lemma concat_chunks: "0 < k \<Longrightarrow> concat (chunks k xs) = xs"
proof (induction k xs rule: chunks.induct)
  case (1 k xs)
  show ?case
  proof (cases "xs = []")
    case True
    then show ?thesis by (simp add: chunks.simps)
  next
    case False
    then have "chunks k xs = take k xs # chunks k (drop k xs)"
      using "1.prems" by (subst chunks.simps) simp
    then show ?thesis using "1.IH" "1.prems" False by simp
  qed
qed

lemma chunks_sizes: "0 < k \<Longrightarrow> \<forall>c\<in>set (chunks k xs). 0 < length c \<and> length c \<le> k"
proof (induction k xs rule: chunks.induct)
  case (1 k xs)
  show ?case
  proof (cases "xs = []")
    case True
    then show ?thesis by (simp add: chunks.simps)
  next
    case False
    then have "chunks k xs = take k xs # chunks k (drop k xs)"
      using "1.prems" by (subst chunks.simps) simp
    then show ?thesis using "1.IH" "1.prems" False by simp
  qed
qed

lemma chunks_full: "0 < k \<Longrightarrow> \<forall>c\<in>set (butlast (chunks k xs)). length c = k"
proof (induction k xs rule: chunks.induct)
  case (1 k xs)
  show ?case
  proof (cases "xs = []")
    case True
    then show ?thesis by (simp add: chunks.simps)
  next
    case False
    then have eq: "chunks k xs = take k xs # chunks k (drop k xs)"
      using "1.prems" by (subst chunks.simps) simp
    show ?thesis
    proof (cases "drop k xs = []")
      case True
      then have "chunks k (drop k xs) = []" by (simp add: chunks.simps)
      then show ?thesis using eq by simp
    next
      case nonempty: False
      then have "k < length xs" by simp
      moreover have "chunks k (drop k xs) \<noteq> []"
        using nonempty "1.prems" by (subst chunks.simps) simp
      ultimately show ?thesis using eq "1.IH" "1.prems" False by simp
    qed
  qed
qed

lemma chunks_Nil_iff: "chunks k xs = [] \<longleftrightarrow> k = 0 \<or> xs = []"
  by (subst chunks.simps) simp

lemma batches_Nil_iff: "batches 1024 n = [] \<longleftrightarrow> n \<le> 0"
  by (simp add: batches_def chunks_Nil_iff)

subsection \<open>The calls of the script\<close>

lemma concat_map_Nil: "concat (map (\<lambda>b. []) bs) = []"
  by (induction bs) simp_all

lemma project_loop:
  "concat (map g (concat (map (encode_batch c) bs))) =
   concat (map (\<lambda>b. concat (map g (encode_batch c b))) bs)"
  by (induction bs) simp_all

lemma stages_loop: "stages (concat (map (encode_batch c) bs)) = []"
  by (simp add: stages_def project_loop encode_batch_def concat_map_Nil)

lemma savefigs_loop: "savefigs (concat (map (encode_batch c) bs)) = []"
  by (simp add: savefigs_def project_loop encode_batch_def concat_map_Nil)

lemma embeddings_loop: "embeddings (concat (map (encode_batch c) bs)) = []"
  by (simp add: embeddings_def project_loop encode_batch_def concat_map_Nil)

lemma loaders_loop: "loaders (concat (map (encode_batch c) bs)) = []"
  by (simp add: loaders_def project_loop encode_batch_def concat_map_Nil)

lemma kmeans_made_loop: "kmeans_made (concat (map (encode_batch c) bs)) = []"
  by (simp add: kmeans_made_def project_loop encode_batch_def concat_map_Nil)

lemma fitted_loop: "fitted (concat (map (encode_batch c) bs)) = []"
  by (simp add: fitted_def project_loop encode_batch_def concat_map_Nil)

lemma training_batch_sizes_loop: "training_batch_sizes (concat (map (encode_batch c) bs)) = []"
  by (simp add: training_batch_sizes_def project_loop encode_batch_def concat_map_Nil)

lemma encoded_loop: "encoded (concat (map (encode_batch c) bs)) = bs"
  by (induction bs) (simp_all add: encoded_def encode_batch_def)

lemma stages_simps:
  "stages [] = []"
  "stages (ev # evs) = stage_of ev @ stages evs"
  "stages (xs @ ys) = stages xs @ stages ys"
  by (simp_all add: stages_def)

lemma savefigs_simps:
  "savefigs [] = []"
  "savefigs (ev # evs) = savefig_of ev @ savefigs evs"
  "savefigs (xs @ ys) = savefigs xs @ savefigs ys"
  by (simp_all add: savefigs_def)

lemma embeddings_simps:
  "embeddings [] = []"
  "embeddings (ev # evs) = embedding_of ev @ embeddings evs"
  "embeddings (xs @ ys) = embeddings xs @ embeddings ys"
  by (simp_all add: embeddings_def)

lemma loaders_simps:
  "loaders [] = []"
  "loaders (ev # evs) = loader_of ev @ loaders evs"
  "loaders (xs @ ys) = loaders xs @ loaders ys"
  by (simp_all add: loaders_def)

lemma kmeans_made_simps:
  "kmeans_made [] = []"
  "kmeans_made (ev # evs) = kmeans_of ev @ kmeans_made evs"
  "kmeans_made (xs @ ys) = kmeans_made xs @ kmeans_made ys"
  by (simp_all add: kmeans_made_def)

lemma encoded_simps:
  "encoded [] = []"
  "encoded (ev # evs) = encoded_of ev @ encoded evs"
  "encoded (xs @ ys) = encoded xs @ encoded ys"
  by (simp_all add: encoded_def)

lemma fitted_simps:
  "fitted [] = []"
  "fitted (ev # evs) = fitted_of ev @ fitted evs"
  "fitted (xs @ ys) = fitted xs @ fitted ys"
  by (simp_all add: fitted_def)

lemma training_batch_sizes_simps:
  "training_batch_sizes [] = []"
  "training_batch_sizes (ev # evs) = trained_of ev @ training_batch_sizes evs"
  "training_batch_sizes (xs @ ys) = training_batch_sizes xs @ training_batch_sizes ys"
  by (simp_all add: training_batch_sizes_def)

text \<open>The calls up to the report, and the report.\<close>

lemma encode_loop_eq:
  "encode_loop e c bs (calls, features, actual) =
     (calls @ concat (map (encode_batch c) bs), features @ map (encoder e) bs, actual @ bs)"
  by (induction bs arbitrary: calls features actual) simp_all

lemma script_split:
  "script e c b pe fe t =
     (setup_calls c t @ pretrain_stage c b pe @ finetune_stage c b fe
      @ [Print ''k-Means stage'', DataLoader_new 1024 False, KMeans_new 10 20, Autoencoder_eval]
      @ concat (map (encode_batch c) (batches 1024 (len (init (files e) True c t))))
      @ [Cat_actual (batches 1024 (len (init (files e) True c t))),
         Cat_features (map (encoder e) (batches 1024 (len (init (files e) True c t)))),
         KMeans_fit_predict
           (concat (map (encoder e) (batches 1024 (len (init (files e) True c t))))),
         Cluster_accuracy, Print_accuracy, Reassign])
     @ report_calls t (uuid4_hex e)
         (map (encoder e) (batches 1024 (len (init (files e) True c t))))"
  by (simp add: script_def kmeans_stage_def Let_def encode_loop_eq)

lemma stages_script:
  "stages (script e c b pe fe t) = [Pretraining, Finetuning, Clustering]"
  by (simp add: script_split stages_simps stages_loop setup_calls_def pretrain_stage_def
      finetune_stage_def report_calls_def)

lemma savefigs_script:
  "savefigs (script e c b pe fe t) =
     (if t then [] else [''confusion_'' @ uuid4_hex e @ ''.png''])"
  by (simp add: script_split savefigs_simps savefigs_loop setup_calls_def pretrain_stage_def
      finetune_stage_def report_calls_def)

lemma embeddings_script:
  "embeddings (script e c b pe fe t) = (if t then [] else [''predicted''])"
  by (simp add: script_split embeddings_simps embeddings_loop setup_calls_def pretrain_stage_def
      finetune_stage_def report_calls_def)

lemma loaders_script:
  "loaders (script e c b pe fe t) = [(1024, False)]"
  by (simp add: script_split loaders_simps loaders_loop setup_calls_def pretrain_stage_def
      finetune_stage_def report_calls_def)

lemma kmeans_made_script:
  "kmeans_made (script e c b pe fe t) = [(10, 20)]"
  by (simp add: script_split kmeans_made_simps kmeans_made_loop setup_calls_def pretrain_stage_def
      finetune_stage_def report_calls_def)

lemma encoded_script:
  "encoded (script e c b pe fe t) = batches 1024 (len (init (files e) True c t))"
  by (simp add: script_split encoded_simps encoded_loop setup_calls_def pretrain_stage_def
      finetune_stage_def report_calls_def)

lemma fitted_script:
  "fitted (script e c b pe fe t) =
     [concat (map (encoder e) (batches 1024 (len (init (files e) True c t))))]"
  by (simp add: script_split fitted_simps fitted_loop setup_calls_def pretrain_stage_def
      finetune_stage_def report_calls_def)

lemma training_batch_sizes_script:
  "training_batch_sizes (script e c b pe fe t) = [b, b]"
  by (simp add: script_split training_batch_sizes_simps training_batch_sizes_loop setup_calls_def pretrain_stage_def
      finetune_stage_def report_calls_def)

lemma without_batch_size_loop:
  "map without_batch_size (concat (map (encode_batch c) bs)) = concat (map (encode_batch c) bs)"
  by (induction bs) (simp_all add: encode_batch_def)

lemma without_batch_size_script:
  "map without_batch_size (script e c b pe fe t) = map without_batch_size (script e c b' pe fe t)"
  by (simp add: script_split setup_calls_def pretrain_stage_def finetune_stage_def
      without_batch_size_loop report_calls_def)

subsection \<open>Runs in which no call raises\<close>

lemma script_calls:
  "set (script e c b pe fe t) \<subseteq>
     set (setup_calls c t) \<union> set (pretrain_stage c b pe) \<union> set (finetune_stage c b fe)
     \<union> {Print ''k-Means stage'', DataLoader_new 1024 False, KMeans_new 10 20, Autoencoder_eval}
     \<union> range DataLoader_next \<union> range Batch_cuda \<union> range Encoder
     \<union> {Cat_actual (batches 1024 (len (init (files e) True c t))),
         Cat_features (map (encoder e) (batches 1024 (len (init (files e) True c t)))),
         KMeans_fit_predict
           (concat (map (encoder e) (batches 1024 (len (init (files e) True c t))))),
         Cluster_accuracy, Print_accuracy, Reassign}
     \<union> set (report_calls t (uuid4_hex e)
         (map (encoder e) (batches 1024 (len (init (files e) True c t)))))"
  by (auto simp: script_split encode_batch_def split: if_splits)

lemma quiet_run_returns:
  assumes "raises e = (\<lambda>ev. False)" and "0 < len (init (files e) True c t)"
  shows "snd (main e c b pe fe t) = Returned"
proof -
  have ne: "batches 1024 (len (init (files e) True c t)) \<noteq> []"
    using assms(2) by (simp add: batches_Nil_iff)
  have r: "\<And>ev. call_raises e ev \<longleftrightarrow> (ev = Cat_actual [] \<or> ev = Cat_features [])"
  proof -
    fix ev show "call_raises e ev \<longleftrightarrow> (ev = Cat_actual [] \<or> ev = Cat_features [])"
      by (cases ev) (simp_all add: assms(1))
  qed
  have "\<forall>ev\<in>set (script e c b pe fe t). \<not> call_raises e ev"
  proof
    fix ev assume "ev \<in> set (script e c b pe fe t)"
    then have "ev \<noteq> Cat_actual [] \<and> ev \<noteq> Cat_features []"
      using script_calls [of e c b pe fe t] ne
      by (auto simp: setup_calls_def pretrain_stage_def finetune_stage_def report_calls_def
          split: if_splits)
    then show "\<not> call_raises e ev" by (simp add: r)
  qed
  then show ?thesis by (simp add: main_def exec_returned_iff)
qed

lemma main_trace_prefix: "\<exists>rest. script e c b pe fe t = fst (main e c b pe fe t) @ rest"
  unfolding main_def by (rule exec_trace_prefix)

lemma main_returned_trace:
  "snd (main e c b pe fe t) = Returned \<Longrightarrow> fst (main e c b pe fe t) = script e c b pe fe t"
  unfolding main_def by (rule exec_returned_trace)

lemma quiet_env_returns: "snd (main quiet_env c b pe fe True) = Returned"
  by (rule quiet_run_returns) (simp_all add: quiet_env_def len_def init_def)

lemma quiet_env_returns_all: "snd (main quiet_env c b pe fe False) = Returned"
  by (rule quiet_run_returns)
    (simp_all add: quiet_env_def len_def init_def MNIST_len_def two_hundred_samples_def)

lemma large_env_returns: "snd (main large_env c b pe fe False) = Returned"
  by (rule quiet_run_returns)
    (simp_all add: large_env_def len_def init_def MNIST_len_def)

lemma train_fails_run:
  "main train_fails_env False 256 1 1 True =
     (setup_calls False True @ pretrain_stage False 256 1 @ finetune_stage False 256 1,
      Raised (Train \<lparr>arg_cuda = False, arg_epochs = 1, arg_batch_size = 256, arg_lr = 1 / 10,
        arg_momentum = 9 / 10, arg_step_size = 100, arg_gamma = 1 / 10,
        arg_corruption = 2 / 10\<rparr>))"
  by (simp add: main_def script_def setup_calls_def pretrain_stage_def finetune_stage_def
      train_fails_env_def)

lemma before_report:
  "\<exists>before after. script e c b pe fe t = before @ after \<and>
     stages before = [Pretraining, Finetuning, Clustering] \<and>
     savefigs before = [] \<and> embeddings before = [] \<and>
     savefigs after = (if t then [] else [''confusion_'' @ uuid4_hex e @ ''.png'']) \<and>
     embeddings after = (if t then [] else [''predicted''])"
proof (intro exI conjI)
  show "script e c b pe fe t =
     (setup_calls c t @ pretrain_stage c b pe @ finetune_stage c b fe
      @ [Print ''k-Means stage'', DataLoader_new 1024 False, KMeans_new 10 20, Autoencoder_eval]
      @ concat (map (encode_batch c) (batches 1024 (len (init (files e) True c t))))
      @ [Cat_actual (batches 1024 (len (init (files e) True c t))),
         Cat_features (map (encoder e) (batches 1024 (len (init (files e) True c t)))),
         KMeans_fit_predict
           (concat (map (encoder e) (batches 1024 (len (init (files e) True c t))))),
         Cluster_accuracy, Print_accuracy, Reassign])
     @ report_calls t (uuid4_hex e)
         (map (encoder e) (batches 1024 (len (init (files e) True c t))))"
    by (rule script_split)
qed (simp_all add: stages_simps stages_loop savefigs_simps savefigs_loop embeddings_simps
    embeddings_loop setup_calls_def pretrain_stage_def finetune_stage_def report_calls_def)

text \<open>The calls before the loop, the loop, the fit, and the calls after it.\<close>

lemma around_loop:
  "\<exists>before after. script e c b pe fe t =
       before @ concat (map (encode_batch c) (batches 1024 (len (init (files e) True c t))))
       @ [Cat_actual (batches 1024 (len (init (files e) True c t))),
          Cat_features (map (encoder e) (batches 1024 (len (init (files e) True c t)))),
          KMeans_fit_predict
            (concat (map (encoder e) (batches 1024 (len (init (files e) True c t)))))]
       @ after \<and>
     stages before = [Pretraining, Finetuning] \<and> loaders before = [(1024, False)] \<and>
     kmeans_made before = [(10, 20)] \<and> encoded before = [] \<and> fitted before = [] \<and>
     stages after = [] \<and> encoded after = [] \<and> fitted after = []"
proof (intro exI conjI)
  show "script e c b pe fe t =
     (setup_calls c t @ pretrain_stage c b pe @ finetune_stage c b fe
      @ [Print ''k-Means stage'', DataLoader_new 1024 False, KMeans_new 10 20, Autoencoder_eval])
     @ concat (map (encode_batch c) (batches 1024 (len (init (files e) True c t))))
     @ [Cat_actual (batches 1024 (len (init (files e) True c t))),
        Cat_features (map (encoder e) (batches 1024 (len (init (files e) True c t)))),
        KMeans_fit_predict
          (concat (map (encoder e) (batches 1024 (len (init (files e) True c t)))))]
     @ ([Cluster_accuracy, Print_accuracy, Reassign]
        @ report_calls t (uuid4_hex e)
            (map (encoder e) (batches 1024 (len (init (files e) True c t)))))"
    by (simp add: script_split)
qed (simp_all add: stages_simps loaders_simps kmeans_made_simps encoded_simps fitted_simps
    setup_calls_def pretrain_stage_def finetune_stage_def report_calls_def)

lemma batches_concat: "concat (batches 1024 n) = map int [0..<nat n]"
  by (simp add: batches_def concat_chunks)

lemma batches_sizes:
  "\<forall>batch\<in>set (batches 1024 n). 0 < length batch \<and> length batch \<le> 1024"
  using chunks_sizes [of 1024 "map int [0..<nat n]"] by (simp add: batches_def)

lemma batches_full: "\<forall>batch\<in>set (butlast (batches 1024 n)). length batch = 1024"
  using chunks_full [of 1024 "map int [0..<nat n]"] by (simp add: batches_def)

lemma large_batches:
  "map length (batches 1024 2500) = [1024, 1024, 452]"
  by (simp add: batches_def chunks.simps [of 1024] drop_map take_map)

lemma large_env_len: "len (init (files large_env) True c False) = 2500"
  by (simp add: large_env_def len_def init_def MNIST_len_def)

lemma large_env_encoded:
  "map length (encoded (fst (main large_env c b pe fe False))) = [1024, 1024, 452]"
  by (simp add: main_returned_trace [OF large_env_returns] encoded_script large_env_len
      large_batches)

section \<open>The length of the dataset\<close>

text \<open>
  C2: \<^verbatim>\<open>CachedMNIST.__len__\<close> returns 128 when the testing-mode flag is set, and the
  length of the full underlying dataset otherwise. The value does not depend on the
  reads made so far.
\<close>

theorem len_testing_mode:
  "(testing_mode self \<longrightarrow> len (getitems acc self is) = 128) \<and>
   (\<not> testing_mode self \<longrightarrow> len (getitems acc self is) = int (length (data (ds self))))"
  by (simp add: len_def MNIST_len_def getitems_fields)

theorem len_testing_mode_witness:
  "testing_mode (init two_samples True False True) \<and>
   len (getitems (\<lambda>k. True) (init two_samples True False True) [0, 1]) = 128 \<and>
   \<not> testing_mode (init two_samples True False False) \<and>
   len (getitems (\<lambda>k. True) (init two_samples True False False) [0, 1]) = 2"
  using len_testing_mode [of "init two_samples True False True" "\<lambda>k. True" "[0, 1]"]
    len_testing_mode [of "init two_samples True False False" "\<lambda>k. True" "[0, 1]"]
  by (simp add: init_def two_samples_def)

section \<open>The cache\<close>

text \<open>
  C1: in a dataset as the constructor and any reads have left it, whatever the
  accelerator does, a read of an index of the underlying dataset leaves an entry for
  the index, at an address \<open>r\<close>, holding the transformed sample. If the index was not
  cached, the read calls the transform once and stores a new list; if it was, the read
  changes nothing. The read returns \<open>r\<close>, unless it has just created the entry and a
  device transfer raised; without \<^verbatim>\<open>cuda\<close>, or when no transfer fails, it returns \<open>r\<close>
  and the list is that of a completed fill. Whatever reads follow, a read of the same
  index returns the same address \<open>r\<close> and leaves the dataset as it was, the list at
  \<open>r\<close> is the one first stored, and the transform has run exactly once per cached
  index: an entry is never recomputed, invalidated or evicted.
\<close>

theorem cache_entry_never_recomputed:
  assumes "s = getitems acc (init fs train c t) before"
    and "- (2 ^ 63) \<le> i \<and> i < 2 ^ 63 \<and>
         - int (length (fs train)) \<le> i \<and> i < int (length (fs train))"
    and "s1 = snd (getitem acc s i)"
    and "s2 = getitems acc s1 later"
    and "sample = fs train ! nat (if i < 0 then int (length (fs train)) + i else i)"
  shows "\<exists>r. cache s1 i = Some r \<and>
      (fst (getitem acc s i) = Inr r \<or>
       c \<and> i \<notin> dom (cache s) \<and> fst (getitem acc s i) = Inl RuntimeError) \<and>
      (\<not> c \<or> (\<forall>k. acc k) \<longrightarrow>
         fst (getitem acc s i) = Inr r \<and> heap s1 ! r = stored c sample) \<and>
      (\<exists>feature_moved label_moved. heap s1 ! r = placed feature_moved label_moved sample) \<and>
      (i \<notin> dom (cache s) \<longrightarrow>
         r = length (heap s) \<and> transform_calls (ds s1) = transform_calls (ds s) + 1) \<and>
      (i \<in> dom (cache s) \<longrightarrow> s1 = s) \<and>
      getitem acc s2 i = (Inr r, s2) \<and> heap s2 ! r = heap s1 ! r \<and>
      transform_calls (ds s2) = card (dom (cache s2))"
proof -
  have ok: "cache_ok s" using assms(1) by (simp add: reachable_ok)
  have v: "valid_index (ds s) i" using assms(1,2) by (simp add: reachable_valid)
  have ok1: "cache_ok s1" using ok assms(3) by (simp add: cache_ok_getitem)
  have ok2: "cache_ok s2" using ok1 assms(4) by (simp add: cache_ok_getitems)
  have smp: "sample_at (ds s) i = sample"
    using assms(1,5) by (simp add: reachable_sample)
  have cu: "cuda s = c" using assms(1) by (simp add: reachable_fields)
  have complete: "\<not> c \<or> (\<forall>k. acc k) \<Longrightarrow> cache_complete s"
    using assms(1) by (simp add: reachable_complete)
  have first: "\<exists>r. cache s1 i = Some r \<and>
      (fst (getitem acc s i) = Inr r \<or>
       c \<and> i \<notin> dom (cache s) \<and> fst (getitem acc s i) = Inl RuntimeError) \<and>
      (\<not> c \<or> (\<forall>k. acc k) \<longrightarrow>
         fst (getitem acc s i) = Inr r \<and> heap s1 ! r = stored c sample) \<and>
      (\<exists>feature_moved label_moved. heap s1 ! r = placed feature_moved label_moved sample) \<and>
      (i \<notin> dom (cache s) \<longrightarrow>
         r = length (heap s) \<and> transform_calls (ds s1) = transform_calls (ds s) + 1) \<and>
      (i \<in> dom (cache s) \<longrightarrow> s1 = s)"
  proof (cases "cache s i")
    case (Some r)
    have hit: "getitem acc s i = (Inr r, s)" using Some by (rule getitem_hit)
    have "heap s ! r = placed False False sample \<or> heap s ! r = placed True False sample \<or>
        heap s ! r = placed True True sample"
      using getitem_cached [OF ok Some] smp by auto
    moreover have "\<not> c \<or> (\<forall>k. acc k) \<Longrightarrow> heap s ! r = stored c sample"
      using complete Some smp cu by (auto simp: cache_complete_def)
    ultimately show ?thesis using Some hit assms(3) by auto
  next
    case None
    from getitem_created [OF ok None v assms(3)] None smp cu show ?thesis
      by (auto simp: domIff stored_placed)
  qed
  then obtain r where r: "cache s1 i = Some r"
      "fst (getitem acc s i) = Inr r \<or>
       c \<and> i \<notin> dom (cache s) \<and> fst (getitem acc s i) = Inl RuntimeError"
      "\<not> c \<or> (\<forall>k. acc k) \<longrightarrow>
         fst (getitem acc s i) = Inr r \<and> heap s1 ! r = stored c sample"
      "\<exists>feature_moved label_moved. heap s1 ! r = placed feature_moved label_moved sample"
      "i \<notin> dom (cache s) \<longrightarrow>
         r = length (heap s) \<and> transform_calls (ds s1) = transform_calls (ds s) + 1"
      "i \<in> dom (cache s) \<longrightarrow> s1 = s"
    by blast
  have keep: "cache s2 i = Some r \<and> heap s2 ! r = heap s1 ! r"
    using getitems_keeps [OF ok1 r(1)] assms(4) by simp
  have again: "getitem acc s2 i = (Inr r, s2)" using keep by (simp add: getitem_hit)
  have cnt: "transform_calls (ds s2) = card (dom (cache s2))"
    using ok2 by (simp add: cache_ok_def)
  show ?thesis using r keep again cnt by blast
qed

theorem cache_entry_never_recomputed_witness:
  "(- (2 ^ 63) \<le> (1::int) \<and> (1::int) < 2 ^ 63 \<and>
    - int (length (two_samples True)) \<le> 1 \<and> 1 < int (length (two_samples True))) \<and>
   fst (getitem (\<lambda>k. True) (init two_samples True False False) 1) = Inr 0 \<and>
   getitem (\<lambda>k. True)
     (getitems (\<lambda>k. True) (snd (getitem (\<lambda>k. True) (init two_samples True False False) 1))
        [0, 1, 5]) 1 =
     (Inr 0,
      getitems (\<lambda>k. True) (snd (getitem (\<lambda>k. True) (init two_samples True False False) 1))
        [0, 1, 5]) \<and>
   heap (getitems (\<lambda>k. True) (snd (getitem (\<lambda>k. True) (init two_samples True False False) 1))
        [0, 1, 5]) ! 0 =
     [FloatTensor CPU [F32_mul (F32_of_byte 5) (F32_lit (2 / 100)), F32_mul (F32_of_byte 6) (F32_lit (2 / 100)),
        F32_mul (F32_of_byte 250) (F32_lit (2 / 100)), F32_mul (F32_of_byte 8) (F32_lit (2 / 100))], PyInt 3] \<and>
   fst (getitem (\<lambda>k. 0 < k) (init two_samples True True False) 1) = Inl RuntimeError \<and>
   getitem (\<lambda>k. 0 < k)
     (getitems (\<lambda>k. 0 < k) (snd (getitem (\<lambda>k. 0 < k) (init two_samples True True False) 1))
        [0, 1, 5]) 1 =
     (Inr 0,
      getitems (\<lambda>k. 0 < k) (snd (getitem (\<lambda>k. 0 < k) (init two_samples True True False) 1))
        [0, 1, 5])"
proof -
  have range: "- (2 ^ 63) \<le> (1::int) \<and> (1::int) < 2 ^ 63 \<and>
    - int (length (two_samples True)) \<le> 1 \<and> 1 < int (length (two_samples True))"
    by (simp add: two_samples_def)
  have first: "fst (getitem (\<lambda>k. True) (init two_samples True False False) 1) = Inr 0"
    by (simp add: two_samples_first_read)
  have failed: "fst (getitem (\<lambda>k. 0 < k) (init two_samples True True False) 1) = Inl RuntimeError"
    and entry: "cache (snd (getitem (\<lambda>k. 0 < k) (init two_samples True True False) 1)) 1 = Some 0"
    by (simp_all add: two_samples_failed_read)
  have st: "stored False (two_samples True ! nat (if (1::int) < 0 then int (length (two_samples True)) + 1 else 1)) =
     [FloatTensor CPU [F32_mul (F32_of_byte 5) (F32_lit (2 / 100)), F32_mul (F32_of_byte 6) (F32_lit (2 / 100)),
        F32_mul (F32_of_byte 250) (F32_lit (2 / 100)), F32_mul (F32_of_byte 8) (F32_lit (2 / 100))], PyInt 3]"
    by (simp add: stored_def two_samples_def tobytes_def to_float_def mul_scalar_def)
  show ?thesis
    using cache_entry_never_recomputed [where fs = two_samples and train = True and c = False
        and t = False and before = "[]" and i = 1 and later = "[0, 1, 5]" and acc = "\<lambda>k. True",
        OF refl range refl refl refl]
      cache_entry_never_recomputed [where fs = two_samples and train = True and c = True
        and t = False and before = "[]" and i = 1 and later = "[0, 1, 5]" and acc = "\<lambda>k. 0 < k",
        OF refl range refl refl refl]
      range first failed entry st
    by auto
qed

section \<open>Failure of a read\<close>

text \<open>
  The accessor does not compare the index with the length it reports, and
  \<^verbatim>\<open>IndexError\<close> is not its only exception. In testing mode, over two hundred samples,
  the length is 128, the index 128 is not below it, and the read of index 128 returns
  the list at address 0; the read of index \<open>2 ^ 63\<close> raises \<^verbatim>\<open>RuntimeError\<close>; and with
  \<^verbatim>\<open>cuda\<close> set and an accelerator that fails, the read of index 5 raises
  \<^verbatim>\<open>RuntimeError\<close>.
\<close>

theorem getitem_failures_counterexample:
  "len (init two_hundred_samples True False True) = 128 \<and>
   \<not> (128 < len (init two_hundred_samples True False True)) \<and>
   fst (getitem (\<lambda>k. True) (init two_hundred_samples True False True) 128) = Inr 0 \<and>
   fst (getitem (\<lambda>k. True) (init two_hundred_samples True False True) (2 ^ 63)) =
     Inl RuntimeError \<and>
   fst (getitem (\<lambda>k. False) (init two_hundred_samples True True True) 5) = Inl RuntimeError"
proof -
  have a: "fst (getitem (\<lambda>k. True) (init two_hundred_samples True False True) 128) = Inr 0"
    unfolding getitem_miss [OF init_uncached two_hundred_valid init_transform, of 128, simplified]
    by (simp add: init_def)
  have b: "fst (getitem (\<lambda>k. True) (init two_hundred_samples True False True) (2 ^ 63)) =
     Inl RuntimeError"
    by (simp add: getitem_overflow init_uncached)
  have c: "fst (getitem (\<lambda>k. False) (init two_hundred_samples True True True) 5) =
     Inl RuntimeError"
    unfolding getitem_miss [OF init_uncached two_hundred_valid init_transform, of 5, simplified]
    by (simp add: init_def)
  show ?thesis using a b c by (simp add: len_def init_def)
qed

text \<open>
  C3, as amended: in a dataset as the constructor and any reads have left it, a read
  fails exactly where a call into a library fails. An index that does not fit a signed
  64-bit integer raises the \<^verbatim>\<open>RuntimeError\<close> of the tensor indexing, and an index that
  fits but is outside the underlying dataset (\<open>-n \<le> index < n\<close> for its \<open>n\<close> samples, a
  negative index counting from the end) raises the \<^verbatim>\<open>IndexError\<close> of the underlying
  dataset; both leave the object unchanged. An index of the underlying dataset is
  served if it is cached, or \<^verbatim>\<open>cuda\<close> is off, or the two transfers of the fill succeed;
  otherwise the read raises the \<^verbatim>\<open>RuntimeError\<close> of the transfer and the entry stays
  in the cache. The length that \<^verbatim>\<open>__len__\<close> reports plays no part.
\<close>

theorem getitem_failure_modes:
  assumes "s = getitems acc (init fs train c t) before"
    and "fits \<longleftrightarrow> - (2 ^ 63) \<le> i \<and> i < 2 ^ 63"
    and "in_range \<longleftrightarrow> - int (length (fs train)) \<le> i \<and> i < int (length (fs train))"
    and "transfers_ok \<longleftrightarrow> acc (transfers s) \<and> acc (Suc (transfers s))"
  shows "(\<not> fits \<longrightarrow> getitem acc s i = (Inl RuntimeError, s)) \<and>
     (fits \<and> \<not> in_range \<longrightarrow> getitem acc s i = (Inl IndexError, s)) \<and>
     (fits \<and> in_range \<and> (i \<in> dom (cache s) \<or> \<not> c \<or> transfers_ok) \<longrightarrow>
        (\<exists>r. fst (getitem acc s i) = Inr r)) \<and>
     (fits \<and> in_range \<and> i \<notin> dom (cache s) \<and> c \<and> \<not> transfers_ok \<longrightarrow>
        fst (getitem acc s i) = Inl RuntimeError \<and>
        i \<in> dom (cache (snd (getitem acc s i))))"
proof -
  have ok: "cache_ok s" using assms(1) by (simp add: reachable_ok)
  have v: "valid_index (ds s) i \<longleftrightarrow> fits \<and> in_range"
    using assms(1,2,3) by (simp add: reachable_valid)
  have cu: "cuda s = c" using assms(1) by (simp add: reachable_fields)
  have invalid: "\<not> (fits \<and> in_range) \<Longrightarrow>
      getitem acc s i = (Inl (if fits then IndexError else RuntimeError), s)"
  proof -
    assume "\<not> (fits \<and> in_range)"
    then have "\<not> valid_index (ds s) i" using v by simp
    from getitem_invalid [OF ok this, of acc] show ?thesis
      using assms(2) by (cases "getitem acc s i") simp
  qed
  have hit: "i \<in> dom (cache s) \<Longrightarrow> \<exists>r. fst (getitem acc s i) = Inr r"
    by (auto simp: getitem_hit)
  have miss: "fits \<and> in_range \<Longrightarrow> i \<notin> dom (cache s) \<Longrightarrow>
      (\<not> c \<or> transfers_ok \<longrightarrow> (\<exists>r. fst (getitem acc s i) = Inr r)) \<and>
      (c \<and> \<not> transfers_ok \<longrightarrow> fst (getitem acc s i) = Inl RuntimeError \<and>
         i \<in> dom (cache (snd (getitem acc s i))))"
  proof -
    assume a: "fits \<and> in_range" and "i \<notin> dom (cache s)"
    then have none: "cache s i = None" by (simp add: domIff)
    have valid: "valid_index (ds s) i" using a v by simp
    from getitem_created [OF ok none valid refl, of acc] show ?thesis
      using cu assms(4) by auto
  qed
  show ?thesis using invalid hit miss by auto
qed

theorem getitem_failure_modes_witness:
  "(\<exists>r. fst (getitem (\<lambda>k. True) (getitems (\<lambda>k. True) (init two_hundred_samples True False True) [3])
        128) = Inr r) \<and>
   getitem (\<lambda>k. True) (getitems (\<lambda>k. True) (init two_hundred_samples True False True) [3]) 200 =
     (Inl IndexError, getitems (\<lambda>k. True) (init two_hundred_samples True False True) [3]) \<and>
   getitem (\<lambda>k. True) (getitems (\<lambda>k. True) (init two_hundred_samples True False True) [3])
       (- (2 ^ 63) - 1) =
     (Inl RuntimeError, getitems (\<lambda>k. True) (init two_hundred_samples True False True) [3]) \<and>
   fst (getitem (\<lambda>k. False) (init two_hundred_samples True True True) 5) = Inl RuntimeError \<and>
   5 \<in> dom (cache (snd (getitem (\<lambda>k. False) (init two_hundred_samples True True True) 5)))"
proof -
  have n: "length (two_hundred_samples True) = 200" by (simp add: two_hundred_samples_def)
  have a: "\<exists>r. fst (getitem (\<lambda>k. True)
      (getitems (\<lambda>k. True) (init two_hundred_samples True False True) [3]) 128) = Inr r"
    using getitem_failure_modes [where fs = two_hundred_samples and train = True
      and c = False and t = True and before = "[3]" and i = 128 and acc = "\<lambda>k. True",
      OF refl refl refl refl]
    by (simp add: n)
  have b: "getitem (\<lambda>k. True) (getitems (\<lambda>k. True) (init two_hundred_samples True False True) [3]) 200 =
     (Inl IndexError, getitems (\<lambda>k. True) (init two_hundred_samples True False True) [3])"
    using getitem_failure_modes [where fs = two_hundred_samples and train = True
      and c = False and t = True and before = "[3]" and i = 200 and acc = "\<lambda>k. True",
      OF refl refl refl refl]
    by (simp add: n)
  have c: "getitem (\<lambda>k. True) (getitems (\<lambda>k. True) (init two_hundred_samples True False True) [3])
       (- (2 ^ 63) - 1) =
     (Inl RuntimeError, getitems (\<lambda>k. True) (init two_hundred_samples True False True) [3])"
    using getitem_failure_modes [where fs = two_hundred_samples and train = True
      and c = False and t = True and before = "[3]" and i = "- (2 ^ 63) - 1" and acc = "\<lambda>k. True",
      OF refl refl refl refl]
    by simp
  have d: "fst (getitem (\<lambda>k. False) (init two_hundred_samples True True True) 5) = Inl RuntimeError \<and>
   5 \<in> dom (cache (snd (getitem (\<lambda>k. False) (init two_hundred_samples True True True) 5)))"
    using getitem_failure_modes [where fs = two_hundred_samples and train = True
      and c = True and t = True and before = "[]" and i = 5 and acc = "\<lambda>k. False",
      OF refl refl refl refl]
    by (simp add: n init_def)
  show ?thesis using a b c d by blast
qed

section \<open>Device placement\<close>

text \<open>
  With \<^verbatim>\<open>cuda\<close> set, an entry is not always on the accelerator: line 41 stores the list
  on the CPU before lines 43 and 44 move it. When the first transfer raises, the read
  raises, the entry stays with its tensor on the CPU and its label an integer, and the
  next read returns it as it is, although every later transfer would succeed.
\<close>

theorem failed_transfer_counterexample:
  "cuda (init two_samples True True False) \<and>
   fst (getitem (\<lambda>k. 0 < k) (init two_samples True True False) 1) = Inl RuntimeError \<and>
   cache (snd (getitem (\<lambda>k. 0 < k) (init two_samples True True False) 1)) 1 = Some 0 \<and>
   map device_of (heap (snd (getitem (\<lambda>k. 0 < k) (init two_samples True True False) 1)) ! 0) =
     [Some CPU, None] \<and>
   fst (getitem (\<lambda>k. 0 < k) (snd (getitem (\<lambda>k. 0 < k) (init two_samples True True False) 1)) 1) =
     Inr 0 \<and>
   map device_of
     (heap (snd (getitem (\<lambda>k. 0 < k)
        (snd (getitem (\<lambda>k. 0 < k) (init two_samples True True False) 1)) 1)) ! 0) =
     [Some CPU, None]"
  by (simp add: two_samples_failed_read getitem_hit placed_def) (simp add: init_def)

text \<open>
  C8, as amended: the device of a cached sample is decided once, by the read that
  creates its entry, from the \<^verbatim>\<open>cuda\<close> flag given to the constructor. If that read
  returns, the feature tensor and the label are both on the accelerator when the flag
  is set (and the tensor is on the CPU and the label no tensor when it is not); it
  returns whenever the flag is off or its two transfers succeed. If it does not
  return, the flag is set, a transfer has raised, and the entry stays as the read left
  it: the label no tensor, the feature tensor on the CPU or on the accelerator.
  Whatever reads follow, the flag, the entry and the stored list stay as they are.
\<close>

theorem device_decided_at_fill:
  assumes "s = getitems acc (init fs train c t) before"
    and "- (2 ^ 63) \<le> i \<and> i < 2 ^ 63 \<and>
         - int (length (fs train)) \<le> i \<and> i < int (length (fs train))"
    and "i \<notin> dom (cache s)"
    and "s1 = snd (getitem acc s i)"
    and "s2 = getitems acc s1 later"
  shows "\<exists>r. cache s1 i = Some r \<and>
      (fst (getitem acc s i) = Inr r \<longrightarrow>
         map device_of (heap s1 ! r) = (if c then [Some CUDA, Some CUDA] else [Some CPU, None])) \<and>
      (\<not> c \<or> (acc (transfers s) \<and> acc (Suc (transfers s))) \<longrightarrow>
         fst (getitem acc s i) = Inr r) \<and>
      (fst (getitem acc s i) \<noteq> Inr r \<longrightarrow>
         c \<and> fst (getitem acc s i) = Inl RuntimeError \<and>
         (map device_of (heap s1 ! r) = [Some CPU, None] \<or>
          map device_of (heap s1 ! r) = [Some CUDA, None])) \<and>
      cuda s2 = c \<and> cache s2 i = Some r \<and> heap s2 ! r = heap s1 ! r \<and>
      getitem acc s2 i = (Inr r, s2)"
proof -
  have ok: "cache_ok s" using assms(1) by (simp add: reachable_ok)
  have v: "valid_index (ds s) i" using assms(1,2) by (simp add: reachable_valid)
  have none: "cache s i = None" using assms(3) by (simp add: domIff)
  have ok1: "cache_ok s1" using ok assms(4) by (simp add: cache_ok_getitem)
  have cu: "cuda s = c" using assms(1) by (simp add: reachable_fields)
  have cu2: "cuda s2 = c" using cu assms(4,5) by (simp add: getitems_fields getitem_fields)
  define r where "r = length (heap s)"
  have created: "cache s1 i = Some r"
    and completed: "(c \<longrightarrow> acc (transfers s) \<and> acc (Suc (transfers s))) \<longrightarrow>
        fst (getitem acc s i) = Inr r \<and> heap s1 ! r = stored c (sample_at (ds s) i)"
    and cut: "\<not> (c \<longrightarrow> acc (transfers s) \<and> acc (Suc (transfers s))) \<longrightarrow>
        fst (getitem acc s i) = Inl RuntimeError \<and>
        (heap s1 ! r = placed False False (sample_at (ds s) i) \<or>
         heap s1 ! r = placed True False (sample_at (ds s) i))"
    using getitem_created [OF ok none v assms(4)] cu by (simp_all add: r_def)
  have keep: "cache s2 i = Some r \<and> heap s2 ! r = heap s1 ! r"
    using getitems_keeps [OF ok1 created] assms(5) by simp
  have again: "getitem acc s2 i = (Inr r, s2)" using keep by (simp add: getitem_hit)
  show ?thesis
  proof (cases "c \<longrightarrow> acc (transfers s) \<and> acc (Suc (transfers s))")
    case True
    then have f: "fst (getitem acc s i) = Inr r"
      and h: "heap s1 ! r = stored c (sample_at (ds s) i)"
      using completed by simp_all
    have dev: "map device_of (heap s1 ! r) =
        (if c then [Some CUDA, Some CUDA] else [Some CPU, None])"
      unfolding h by (rule devices_stored)
    show ?thesis
      by (intro exI [where x = r] conjI impI) (simp_all add: created f dev cu2 keep again)
  next
    case False
    then have c: c and nok: "\<not> (acc (transfers s) \<and> acc (Suc (transfers s)))"
      and f: "fst (getitem acc s i) = Inl RuntimeError"
      and h: "heap s1 ! r = placed False False (sample_at (ds s) i) \<or>
         heap s1 ! r = placed True False (sample_at (ds s) i)"
      using cut by simp_all
    have dev: "map device_of (heap s1 ! r) = [Some CPU, None] \<or>
          map device_of (heap s1 ! r) = [Some CUDA, None]"
      using h by (auto simp: devices_placed)
    show ?thesis
    proof (intro exI [where x = r] conjI impI)
      show "cache s1 i = Some r" by (rule created)
      show "cuda s2 = c" by (rule cu2)
      show "cache s2 i = Some r" using keep by simp
      show "heap s2 ! r = heap s1 ! r" using keep by simp
      show "getitem acc s2 i = (Inr r, s2)" by (rule again)
      show "c" by (rule c)
      show "fst (getitem acc s i) = Inl RuntimeError" by (rule f)
      show "map device_of (heap s1 ! r) = [Some CPU, None] \<or>
          map device_of (heap s1 ! r) = [Some CUDA, None]" by (rule dev)
      show "fst (getitem acc s i) = Inr r"
        if "\<not> c \<or> acc (transfers s) \<and> acc (Suc (transfers s))"
        using that c nok by simp
      show "map device_of (heap s1 ! r) =
          (if c then [Some CUDA, Some CUDA] else [Some CPU, None])"
        if "fst (getitem acc s i) = Inr r"
        using that f by simp
    qed
  qed
qed

theorem device_decided_at_fill_witness:
  "(- (2 ^ 63) \<le> (1::int) \<and> (1::int) < 2 ^ 63 \<and>
    - int (length (two_samples True)) \<le> 1 \<and> 1 < int (length (two_samples True))) \<and>
   1 \<notin> dom (cache (init two_samples True True False)) \<and>
   fst (getitem (\<lambda>k. True) (init two_samples True True False) 1) = Inr 0 \<and>
   map device_of (heap (snd (getitem (\<lambda>k. True) (init two_samples True True False) 1)) ! 0) =
     [Some CUDA, Some CUDA] \<and>
   heap (getitems (\<lambda>k. True) (snd (getitem (\<lambda>k. True) (init two_samples True True False) 1))
       [0, 1, -1, 7]) ! 0 =
     heap (snd (getitem (\<lambda>k. True) (init two_samples True True False) 1)) ! 0"
proof -
  have range: "- (2 ^ 63) \<le> (1::int) \<and> (1::int) < 2 ^ 63 \<and>
    - int (length (two_samples True)) \<le> 1 \<and> 1 < int (length (two_samples True))"
    by (simp add: two_samples_def)
  have fresh: "1 \<notin> dom (cache (init two_samples True True False))"
    by (simp add: init_def)
  then have fresh': "1 \<notin> dom (cache (getitems (\<lambda>k. True) (init two_samples True True False) []))"
    by simp
  have first: "fst (getitem (\<lambda>k. True) (init two_samples True True False) 1) = Inr 0"
    and entry: "cache (snd (getitem (\<lambda>k. True) (init two_samples True True False) 1)) 1 = Some 0"
    by (simp_all add: two_samples_first_read_cuda)
  note th = device_decided_at_fill [where fs = two_samples and train = True and c = True
        and t = False and before = "[]" and i = 1 and later = "[0, 1, -1, 7]"
        and acc = "\<lambda>k. True", OF refl range fresh' refl refl, unfolded getitems.simps(1) if_True]
  from th obtain r where r: "cache (snd (getitem (\<lambda>k. True) (init two_samples True True False) 1)) 1 = Some r"
    and dev: "fst (getitem (\<lambda>k. True) (init two_samples True True False) 1) = Inr r \<longrightarrow>
      map device_of (heap (snd (getitem (\<lambda>k. True) (init two_samples True True False) 1)) ! r) =
        [Some CUDA, Some CUDA]"
    and keep: "heap (getitems (\<lambda>k. True) (snd (getitem (\<lambda>k. True) (init two_samples True True False) 1))
       [0, 1, -1, 7]) ! r =
     heap (snd (getitem (\<lambda>k. True) (init two_samples True True False) 1)) ! r"
    by (elim exE conjE)
  have "r = 0" using r entry by simp
  then show ?thesis using dev keep first range fresh by simp
qed

section \<open>The returned sample\<close>

text \<open>
  With \<^verbatim>\<open>cuda\<close> set, a read can return an integer label: after a read whose first
  transfer raised, the next read of the index returns the list stored on line 41, a
  tensor on the CPU and the integer label.
\<close>

theorem stale_entry_counterexample:
  "cuda (snd (getitem (\<lambda>k. 0 < k) (init two_samples True True False) 1)) \<and>
   fst (getitem (\<lambda>k. 0 < k) (snd (getitem (\<lambda>k. 0 < k) (init two_samples True True False) 1)) 1) =
     Inr 0 \<and>
   returned (getitem (\<lambda>k. 0 < k)
       (snd (getitem (\<lambda>k. 0 < k) (init two_samples True True False) 1)) 1) =
     Some [FloatTensor CPU
        [F32_mul (F32_of_byte 5) (F32_lit (2 / 100)), F32_mul (F32_of_byte 6) (F32_lit (2 / 100)),
         F32_mul (F32_of_byte 250) (F32_lit (2 / 100)), F32_mul (F32_of_byte 8) (F32_lit (2 / 100))],
      PyInt 3]"
  by (simp add: two_samples_failed_read getitem_hit returned_def placed_def)
    (simp add: two_samples_def tobytes_def to_float_def mul_scalar_def)

text \<open>
  C9, as amended: for every index of the underlying dataset, a read that returns gives
  a list of exactly two elements, the feature tensor and the label, and the list can
  be assigned to at both positions. With \<^verbatim>\<open>cuda\<close> off every such read returns, the
  tensor is on the CPU and the label is the integer of the underlying dataset. With
  \<^verbatim>\<open>cuda\<close> on, the read that creates the entry returns the tensor and the label as
  tensors on the accelerator, and so does every read when no transfer fails; an entry
  left by a read that raised is returned as it was left, its label still the integer.
\<close>

theorem getitem_returns_list_of_two:
  assumes "s = getitems acc (init fs train c t) before"
    and "- (2 ^ 63) \<le> i \<and> i < 2 ^ 63 \<and>
         - int (length (fs train)) \<le> i \<and> i < int (length (fs train))"
    and "label = snd (fs train ! nat (if i < 0 then int (length (fs train)) + i else i))"
  shows "(\<not> c \<or> (\<forall>k. acc k) \<longrightarrow> (\<exists>r. fst (getitem acc s i) = Inr r)) \<and>
     (\<forall>r. fst (getitem acc s i) = Inr r \<longrightarrow>
        (\<exists>d xs lab. returned (getitem acc s i) = Some [FloatTensor d xs, lab] \<and>
           (lab = PyInt label \<or> lab = LongTensor CUDA label) \<and>
           (\<not> c \<longrightarrow> d = CPU \<and> lab = PyInt label) \<and>
           (c \<and> (i \<notin> dom (cache s) \<or> (\<forall>k. acc k)) \<longrightarrow>
              d = CUDA \<and> lab = LongTensor CUDA label)) \<and>
        (\<forall>k<2. \<exists>h. list_setitem (heap (snd (getitem acc s i))) r k v = Inr h \<and> h ! r ! k = v))"
proof -
  have ok: "cache_ok s" using assms(1) by (simp add: reachable_ok)
  have v: "valid_index (ds s) i" using assms(1,2) by (simp add: reachable_valid)
  have smp: "snd (sample_at (ds s) i) = label"
    using assms(1,3) by (simp add: reachable_sample)
  have cu: "cuda s = c" using assms(1) by (simp add: reachable_fields)
  have complete: "\<not> c \<or> (\<forall>k. acc k) \<Longrightarrow> cache_complete s"
    using assms(1) by (simp add: reachable_complete)
  show ?thesis
  proof (cases "cache s i")
    case (Some r)
    have hit: "getitem acc s i = (Inr r, s)" using Some by (rule getitem_hit)
    have r: "r < length (heap s)"
      and shape: "heap s ! r = placed False False (sample_at (ds s) i) \<or>
        c \<and> heap s ! r = placed True False (sample_at (ds s) i) \<or>
        c \<and> heap s ! r = placed True True (sample_at (ds s) i)"
      using getitem_cached [OF ok Some] cu by simp_all
    have full: "\<not> c \<or> (\<forall>k. acc k) \<Longrightarrow> heap s ! r = stored c (sample_at (ds s) i)"
      using complete Some cu by (auto simp: cache_complete_def)
    have len2: "length (heap s ! r) = 2" using shape by (auto simp: placed_def)
    have mut: "\<forall>k<2. \<exists>h. list_setitem (heap s) r k v = Inr h \<and> h ! r ! k = v"
      using r len2 by (simp add: list_setitem_def)
    have "\<exists>d xs lab. returned (getitem acc s i) = Some [FloatTensor d xs, lab] \<and>
           (lab = PyInt label \<or> lab = LongTensor CUDA label) \<and>
           (\<not> c \<longrightarrow> d = CPU \<and> lab = PyInt label) \<and>
           (c \<and> (i \<notin> dom (cache s) \<or> (\<forall>k. acc k)) \<longrightarrow>
              d = CUDA \<and> lab = LongTensor CUDA label)"
    proof (cases "\<not> c \<or> (\<forall>k. acc k)")
      case True
      from full [OF this] show ?thesis
        using hit r smp Some by (auto simp: returned_def stored_def)
    next
      case False
      then show ?thesis
        using shape hit r smp Some by (auto simp: returned_def placed_def)
    qed
    then show ?thesis using hit mut by auto
  next
    case None
    define s1 where "s1 = snd (getitem acc s i)"
    define r where "r = length (heap s)"
    have r: "r < length (heap s1)"
      and completed: "(c \<longrightarrow> acc (transfers s) \<and> acc (Suc (transfers s))) \<longrightarrow>
        fst (getitem acc s i) = Inr r \<and> heap s1 ! r = stored c (sample_at (ds s) i)"
      and cut: "\<not> (c \<longrightarrow> acc (transfers s) \<and> acc (Suc (transfers s))) \<longrightarrow>
        fst (getitem acc s i) = Inl RuntimeError"
      using getitem_created [OF ok None v s1_def] cu by (simp_all add: r_def)
    show ?thesis
    proof (cases "c \<longrightarrow> acc (transfers s) \<and> acc (Suc (transfers s))")
      case True
      then have fst: "fst (getitem acc s i) = Inr r"
        and st: "heap s1 ! r = stored c (sample_at (ds s) i)"
        using completed by simp_all
      have len2: "length (heap s1 ! r) = 2" using st by (simp add: stored_def)
      have mut: "\<forall>k<2. \<exists>h. list_setitem (heap s1) r k v = Inr h \<and> h ! r ! k = v"
        using r len2 by (simp add: list_setitem_def)
      have "returned (getitem acc s i) = Some (stored c (sample_at (ds s) i))"
        using fst st r by (simp add: returned_def s1_def)
      then show ?thesis using fst mut smp by (auto simp: stored_def s1_def)
    next
      case False
      then have "fst (getitem acc s i) = Inl RuntimeError" and "c" and "\<not> (\<forall>k. acc k)"
        using cut by auto
      then show ?thesis by simp
    qed
  qed
qed

theorem getitem_returns_list_of_two_witness:
  "(- (2 ^ 63) \<le> (1::int) \<and> (1::int) < 2 ^ 63 \<and>
    - int (length (two_samples True)) \<le> 1 \<and> 1 < int (length (two_samples True))) \<and>
   (\<exists>xs. returned (getitem (\<lambda>k. True) (init two_samples True True False) 1) =
        Some [FloatTensor CUDA xs, LongTensor CUDA 3]) \<and>
   (\<exists>xs. returned (getitem (\<lambda>k. False) (init two_samples True False False) 1) =
        Some [FloatTensor CPU xs, PyInt 3])"
proof -
  have range: "- (2 ^ 63) \<le> (1::int) \<and> (1::int) < 2 ^ 63 \<and>
    - int (length (two_samples True)) \<le> 1 \<and> 1 < int (length (two_samples True))"
    by (simp add: two_samples_def)
  have lab: "(3::int) = snd (two_samples True ! nat (if (1::int) < 0 then int (length (two_samples True)) + 1 else 1))"
    by (simp add: two_samples_def)
  have cuda_first: "fst (getitem (\<lambda>k. True) (init two_samples True True False) 1) = Inr 0"
    by (simp add: two_samples_first_read_cuda)
  have cpu_first: "fst (getitem (\<lambda>k. False) (init two_samples True False False) 1) = Inr 0"
    by (simp add: two_samples_first_read)
  have on_cuda: "\<exists>xs. returned (getitem (\<lambda>k. True) (init two_samples True True False) 1) =
        Some [FloatTensor CUDA xs, LongTensor CUDA 3]"
    using getitem_returns_list_of_two [where fs = two_samples and train = True and c = True
        and t = False and before = "[]" and i = 1 and label = 3 and v = "PyInt 0"
        and acc = "\<lambda>k. True", OF refl range lab] cuda_first
    by (simp only: getitems.simps) auto
  have on_cpu: "\<exists>xs. returned (getitem (\<lambda>k. False) (init two_samples True False False) 1) =
        Some [FloatTensor CPU xs, PyInt 3]"
    using getitem_returns_list_of_two [where fs = two_samples and train = True and c = False
        and t = False and before = "[]" and i = 1 and label = 3 and v = "PyInt 0"
        and acc = "\<lambda>k. False", OF refl range lab] cpu_first
    by (simp only: getitems.simps) auto
  show ?thesis using range on_cuda on_cpu by blast
qed

section \<open>The transform\<close>

text \<open>
  C4: for an image of rows of width \<open>w\<close>, the transform returns a tensor on the CPU with
  one element per pixel, and the element of the pixel in row \<open>r\<close> and column \<open>c\<close> is
  the product of that pixel's byte, converted to a float, with the literal 0.02:
  without rounding, the byte value times 0.02. No other pixel and no mean or variance
  enters the element.
\<close>

theorem transformation_scales_each_pixel:
  assumes "\<forall>row\<in>set img. length row = w" and "r < length img" and "c < w"
  shows "device_of (transformation img) = Some CPU \<and>
     length (elements (transformation img)) = length img * w \<and>
     elements (transformation img) ! (r * w + c) =
       F32_mul (F32_of_byte (img ! r ! c)) (F32_lit (2 / 100)) \<and>
     exact_value (elements (transformation img) ! (r * w + c)) =
       of_nat (unat (img ! r ! c)) * (2 / 100)"
proof -
  have len: "length (concat img) = length img * w"
    using assms(1) by (rule concat_grid_length)
  have bound: "r * w + c < length (concat img)"
    using grid_index_bound [OF assms(2,3)] len by simp
  have px: "concat img ! (r * w + c) = img ! r ! c"
    using assms by (rule concat_grid_nth)
  have el: "elements (transformation img) ! (r * w + c) =
       F32_mul (F32_of_byte (img ! r ! c)) (F32_lit (2 / 100))"
    using bound px by (simp add: transformation_def mul_scalar_def to_float_def tobytes_def)
  show ?thesis
    using el len by (simp add: transformation_def mul_scalar_def to_float_def tobytes_def)
qed

theorem transformation_scales_each_pixel_witness:
  "map length [[5, 6], [250, 8 :: byte]] = [2, 2] \<and>
   (1::nat) < length [[5, 6], [250, 8 :: byte]] \<and> (0::nat) < 2 \<and>
   elements (transformation [[5, 6], [250, 8]]) ! 2 = F32_mul (F32_of_byte 250) (F32_lit (2 / 100)) \<and>
   exact_value (elements (transformation [[5, 6], [250, 8]]) ! 2) = 5"
proof -
  have h1: "\<forall>row\<in>set [[5, 6], [250, 8 :: byte]]. length row = 2" by simp
  have h2: "(1::nat) < length [[5, 6], [250, 8 :: byte]]" by simp
  have h3: "(0::nat) < 2" by simp
  show ?thesis
    using transformation_scales_each_pixel [OF h1 h2 h3] by simp
qed

section \<open>The stages of a run\<close>

text \<open>
  C6: the calls of a run are an initial part of the one script, whatever the calls
  return, so nothing is repeated, skipped or reordered. Its stages are an initial part
  of pretraining, finetuning, clustering, and a run that returns has gone through
  exactly these three, in this order. A call that raises is the last call of the run,
  and the run ends with the exception of that call: nothing catches it. The run
  returns exactly when no call of the script raises, and it does return when the
  environment makes no call raise and the training set is not empty.
\<close>

theorem main_runs_stages_in_order:
  "(\<exists>rest. script e c b pe fe t = fst (main e c b pe fe t) @ rest) \<and>
   (\<exists>rest. [Pretraining, Finetuning, Clustering] = stages (fst (main e c b pe fe t)) @ rest) \<and>
   (snd (main e c b pe fe t) = Returned \<longrightarrow>
      stages (fst (main e c b pe fe t)) = [Pretraining, Finetuning, Clustering]) \<and>
   (\<forall>pre ev post. fst (main e c b pe fe t) = pre @ ev # post \<and> call_raises e ev \<longrightarrow>
      post = [] \<and> snd (main e c b pe fe t) = Raised ev) \<and>
   (snd (main e c b pe fe t) = Returned \<longleftrightarrow>
      (\<forall>ev\<in>set (script e c b pe fe t). \<not> call_raises e ev)) \<and>
   (raises e = (\<lambda>ev. False) \<and> 0 < len (init (files e) True c t) \<longrightarrow>
      snd (main e c b pe fe t) = Returned)"
proof (intro conjI)
  show pre: "\<exists>rest. script e c b pe fe t = fst (main e c b pe fe t) @ rest"
    by (rule main_trace_prefix)
  then obtain rest where "script e c b pe fe t = fst (main e c b pe fe t) @ rest" ..
  then have "stages (script e c b pe fe t) = stages (fst (main e c b pe fe t)) @ stages rest"
    by (simp add: stages_simps)
  then show "\<exists>rest. [Pretraining, Finetuning, Clustering] = stages (fst (main e c b pe fe t)) @ rest"
    unfolding stages_script by blast
  show "snd (main e c b pe fe t) = Returned \<longrightarrow>
      stages (fst (main e c b pe fe t)) = [Pretraining, Finetuning, Clustering]"
    by (simp add: main_returned_trace stages_script)
  show "\<forall>pre ev post. fst (main e c b pe fe t) = pre @ ev # post \<and> call_raises e ev \<longrightarrow>
      post = [] \<and> snd (main e c b pe fe t) = Raised ev"
    unfolding main_def using exec_raise_ends by blast
  show "snd (main e c b pe fe t) = Returned \<longleftrightarrow>
      (\<forall>ev\<in>set (script e c b pe fe t). \<not> call_raises e ev)"
    unfolding main_def by (rule exec_returned_iff)
  show "raises e = (\<lambda>ev. False) \<and> 0 < len (init (files e) True c t) \<longrightarrow>
      snd (main e c b pe fe t) = Returned"
    using quiet_run_returns by blast
qed

theorem main_runs_stages_in_order_witness:
  "snd (main quiet_env False 256 1 1 True) = Returned \<and>
   stages (fst (main quiet_env False 256 1 1 True)) = [Pretraining, Finetuning, Clustering] \<and>
   stages (fst (main train_fails_env False 256 1 1 True)) = [Pretraining, Finetuning] \<and>
   snd (main train_fails_env False 256 1 1 True) =
     Raised (Train \<lparr>arg_cuda = False, arg_epochs = 1, arg_batch_size = 256, arg_lr = 1 / 10,
        arg_momentum = 9 / 10, arg_step_size = 100, arg_gamma = 1 / 10,
        arg_corruption = 2 / 10\<rparr>)"
proof -
  have ret: "snd (main quiet_env False 256 1 1 True) = Returned"
    by (rule quiet_env_returns)
  have "stages (fst (main train_fails_env False 256 1 1 True)) = [Pretraining, Finetuning]"
    by (simp add: train_fails_run stages_simps setup_calls_def pretrain_stage_def
        finetune_stage_def)
  then show ?thesis
    using main_runs_stages_in_order [of quiet_env False 256 1 1 True] ret
    by (simp add: train_fails_run)
qed

section \<open>The report\<close>

text \<open>
  C5: in testing mode a run, however it ends, saves no figure and logs no embedding.
  Outside testing mode a run that returns saves exactly one figure, named
  \<^verbatim>\<open>confusion_\<close>, the hexadecimal identifier that \<^verbatim>\<open>uuid4\<close> gave, \<^verbatim>\<open>.png\<close>, and logs
  exactly one embedding, tagged \<^verbatim>\<open>predicted\<close>; both come after the three stages, and
  nothing is saved or logged before.
\<close>

theorem report_only_outside_testing_mode:
  "(t \<longrightarrow> savefigs (fst (main e c b pe fe t)) = [] \<and>
           embeddings (fst (main e c b pe fe t)) = []) \<and>
   (\<not> t \<and> snd (main e c b pe fe t) = Returned \<longrightarrow>
      savefigs (fst (main e c b pe fe t)) = [''confusion_'' @ uuid4_hex e @ ''.png''] \<and>
      embeddings (fst (main e c b pe fe t)) = [''predicted''] \<and>
      (\<exists>before after. fst (main e c b pe fe t) = before @ after \<and>
         stages before = [Pretraining, Finetuning, Clustering] \<and>
         savefigs before = [] \<and> embeddings before = []))"
proof (intro conjI impI)
  assume t
  obtain rest where "script e c b pe fe t = fst (main e c b pe fe t) @ rest"
    using main_trace_prefix by blast
  then have "savefigs (script e c b pe fe t) = savefigs (fst (main e c b pe fe t)) @ savefigs rest"
    and "embeddings (script e c b pe fe t) = embeddings (fst (main e c b pe fe t)) @ embeddings rest"
    by (simp_all add: savefigs_simps embeddings_simps)
  then have "savefigs (fst (main e c b pe fe t)) @ savefigs rest = []"
    and "embeddings (fst (main e c b pe fe t)) @ embeddings rest = []"
    using \<open>t\<close> by (simp_all add: savefigs_script embeddings_script)
  then show "savefigs (fst (main e c b pe fe t)) = []"
    and "embeddings (fst (main e c b pe fe t)) = []"
    by simp_all
next
  assume a: "\<not> t \<and> snd (main e c b pe fe t) = Returned"
  then have "snd (main e c b pe fe t) = Returned" ..
  then have tr: "fst (main e c b pe fe t) = script e c b pe fe t"
    by (rule main_returned_trace)
  have nt: "\<not> t" using a ..
  show "savefigs (fst (main e c b pe fe t)) = [''confusion_'' @ uuid4_hex e @ ''.png'']"
    unfolding tr savefigs_script using nt by simp
  show "embeddings (fst (main e c b pe fe t)) = [''predicted'']"
    unfolding tr embeddings_script using nt by simp
  show "\<exists>before after. fst (main e c b pe fe t) = before @ after \<and>
         stages before = [Pretraining, Finetuning, Clustering] \<and>
         savefigs before = [] \<and> embeddings before = []"
    unfolding tr using before_report [of e c b pe fe t] by blast
qed

theorem report_only_outside_testing_mode_witness:
  "snd (main quiet_env False 256 1 1 True) = Returned \<and>
   savefigs (fst (main quiet_env False 256 1 1 True)) = [] \<and>
   embeddings (fst (main quiet_env False 256 1 1 True)) = [] \<and>
   snd (main quiet_env False 256 1 1 False) = Returned \<and>
   savefigs (fst (main quiet_env False 256 1 1 False)) = [''confusion_0123abcd.png''] \<and>
   embeddings (fst (main quiet_env False 256 1 1 False)) = [''predicted'']"
proof -
  have hex: "uuid4_hex quiet_env = ''0123abcd''" by (simp add: quiet_env_def)
  show ?thesis
    using report_only_outside_testing_mode [of True quiet_env False 256 1 1]
      report_only_outside_testing_mode [of False quiet_env False 256 1 1]
      quiet_env_returns [of False 256 1 1] quiet_env_returns_all [of False 256 1 1] hex
    by simp
qed

section \<open>The clustering stage\<close>

text \<open>
  C7: a run that returns has built one data loader, with batch size 1024 and without
  shuffling, and one k-means with 10 clusters and 20 restarts, both after pretraining
  and finetuning. Then comes the loop: the encoder runs on the batches of the loader,
  one after the other, and nowhere else in the run. Together the batches are the
  indices of the training set in ascending order, each batch holds between 1 and 1024
  samples and every batch but the last holds 1024. Right after the loop k-means is
  fitted, once, on the matrix made of the rows that the encoder returned for these
  batches, in the same order.
\<close>

theorem kmeans_stage_reads_training_set_in_order:
  assumes "snd (main e c b pe fe t) = Returned"
    and "n = len (init (files e) True c t)"
    and "trace = fst (main e c b pe fe t)"
  shows "loaders trace = [(1024, False)] \<and>
     kmeans_made trace = [(10, 20)] \<and>
     concat (encoded trace) = map int [0..<nat n] \<and>
     (\<forall>batch\<in>set (encoded trace). 0 < length batch \<and> length batch \<le> 1024) \<and>
     (\<forall>batch\<in>set (butlast (encoded trace)). length batch = 1024) \<and>
     fitted trace = [concat (map (encoder e) (encoded trace))] \<and>
     (\<exists>before after.
        trace = before @ concat (map (encode_batch c) (encoded trace))
          @ [Cat_actual (encoded trace), Cat_features (map (encoder e) (encoded trace)),
             KMeans_fit_predict (concat (map (encoder e) (encoded trace)))]
          @ after \<and>
        stages before = [Pretraining, Finetuning] \<and> loaders before = [(1024, False)] \<and>
        kmeans_made before = [(10, 20)] \<and> encoded before = [] \<and> fitted before = [] \<and>
        stages after = [] \<and> encoded after = [] \<and> fitted after = [])"
proof -
  have tr: "trace = script e c b pe fe t"
    using assms(1,3) by (simp add: main_returned_trace)
  have enc: "encoded trace = batches 1024 n"
    unfolding tr assms(2) by (rule encoded_script)
  have order: "\<exists>before after.
        trace = before @ concat (map (encode_batch c) (encoded trace))
          @ [Cat_actual (encoded trace), Cat_features (map (encoder e) (encoded trace)),
             KMeans_fit_predict (concat (map (encoder e) (encoded trace)))]
          @ after \<and>
        stages before = [Pretraining, Finetuning] \<and> loaders before = [(1024, False)] \<and>
        kmeans_made before = [(10, 20)] \<and> encoded before = [] \<and> fitted before = [] \<and>
        stages after = [] \<and> encoded after = [] \<and> fitted after = []"
    unfolding enc unfolding tr assms(2) by (rule around_loop)
  have fit: "fitted trace = [concat (map (encoder e) (encoded trace))]"
    unfolding enc unfolding tr assms(2) by (rule fitted_script)
  have rest: "loaders trace = [(1024, False)] \<and> kmeans_made trace = [(10, 20)] \<and>
     concat (encoded trace) = map int [0..<nat n] \<and>
     (\<forall>batch\<in>set (encoded trace). 0 < length batch \<and> length batch \<le> 1024) \<and>
     (\<forall>batch\<in>set (butlast (encoded trace)). length batch = 1024)"
    unfolding enc unfolding tr loaders_script kmeans_made_script
    using batches_sizes batches_full by (simp add: batches_concat)
  show ?thesis using rest fit order by (intro conjI) simp_all
qed

theorem kmeans_stage_reads_training_set_in_order_witness:
  "snd (main large_env False 256 1 1 False) = Returned \<and>
   loaders (fst (main large_env False 256 1 1 False)) = [(1024, False)] \<and>
   kmeans_made (fst (main large_env False 256 1 1 False)) = [(10, 20)] \<and>
   map length (encoded (fst (main large_env False 256 1 1 False))) = [1024, 1024, 452] \<and>
   concat (encoded (fst (main large_env False 256 1 1 False))) = map int [0..<2500] \<and>
   fitted (fst (main large_env False 256 1 1 False)) =
     [map (\<lambda>i. [of_int i]) (map int [0..<2500])]"
proof -
  have ret: "snd (main large_env False 256 1 1 False) = Returned"
    by (rule large_env_returns)
  have n: "(2500::int) = len (init (files large_env) True False False)"
    by (simp add: large_env_len)
  have enc: "encoder large_env = map (\<lambda>i. [of_int i])"
    by (simp add: large_env_def)
  note th = kmeans_stage_reads_training_set_in_order [OF ret n refl]
  have cat: "concat (encoded (fst (main large_env False 256 1 1 False))) = map int [0..<2500]"
    using th by simp
  have "fitted (fst (main large_env False 256 1 1 False)) =
      [concat (map (map (\<lambda>i. [of_int i])) (encoded (fst (main large_env False 256 1 1 False))))]"
    using th enc by simp
  also have "concat (map (map (\<lambda>i. [of_int i :: rat])) (encoded (fst (main large_env False 256 1 1 False)))) =
      map (\<lambda>i. [of_int i]) (concat (encoded (fst (main large_env False 256 1 1 False))))"
    by (simp add: map_concat)
  finally have fit: "fitted (fst (main large_env False 256 1 1 False)) =
     [map (\<lambda>i. [of_int i]) (map int [0..<2500])]"
    using cat by simp
  show ?thesis
    using th ret large_env_encoded [of False 256 1 1] cat fit by simp
qed

text \<open>
  C10: for two runs that return and differ only in the batch-size option \<open>b\<close>, the
  data loader of the clustering stage has batch size 1024 in both and the batches
  given to the encoder are the same, of at most 1024 samples and of exactly 1024 but
  for the last; the option is the batch size of pretraining and of finetuning, and
  once it is erased from these two calls the runs make the same calls.
\<close>

theorem kmeans_batch_size_is_constant:
  assumes "snd (main e c b pe fe t) = Returned"
    and "snd (main e c b' pe fe t) = Returned"
  shows "loaders (fst (main e c b pe fe t)) = [(1024, False)] \<and>
     training_batch_sizes (fst (main e c b pe fe t)) = [b, b] \<and>
     encoded (fst (main e c b pe fe t)) = encoded (fst (main e c b' pe fe t)) \<and>
     (\<forall>batch\<in>set (encoded (fst (main e c b pe fe t))). length batch \<le> 1024) \<and>
     (\<forall>batch\<in>set (butlast (encoded (fst (main e c b pe fe t)))). length batch = 1024) \<and>
     map without_batch_size (fst (main e c b pe fe t)) =
       map without_batch_size (fst (main e c b' pe fe t))"
proof -
  have tr: "fst (main e c b pe fe t) = script e c b pe fe t"
    using assms(1) by (rule main_returned_trace)
  have tr': "fst (main e c b' pe fe t) = script e c b' pe fe t"
    using assms(2) by (rule main_returned_trace)
  have same: "map without_batch_size (script e c b pe fe t) =
       map without_batch_size (script e c b' pe fe t)"
    by (rule without_batch_size_script)
  show ?thesis
    unfolding tr tr' loaders_script training_batch_sizes_script encoded_script
    using batches_sizes batches_full same by simp
qed

theorem kmeans_batch_size_is_constant_witness:
  "snd (main large_env False 256 1 1 False) = Returned \<and>
   snd (main large_env False 32 1 1 False) = Returned \<and>
   loaders (fst (main large_env False 32 1 1 False)) = [(1024, False)] \<and>
   training_batch_sizes (fst (main large_env False 32 1 1 False)) = [32, 32] \<and>
   map length (encoded (fst (main large_env False 32 1 1 False))) = [1024, 1024, 452] \<and>
   encoded (fst (main large_env False 32 1 1 False)) =
     encoded (fst (main large_env False 256 1 1 False))"
proof -
  have ret: "snd (main large_env False 32 1 1 False) = Returned"
    by (rule large_env_returns)
  have ret': "snd (main large_env False 256 1 1 False) = Returned"
    by (rule large_env_returns)
  show ?thesis
    using kmeans_batch_size_is_constant [OF ret ret'] ret ret'
      large_env_encoded [of False 32 1 1]
    by simp
qed

end
